theory Spec2Isabelle
  imports Main "HOL-Library.AList"
begin

section \<open>Values shared by both manager modules\<close>

text \<open>
  The repository holds the job manager twice: \<^verbatim>\<open>src/app/manager.js\<close> and an older
  copy, \<^verbatim>\<open>src/unnamed/part_000\<close>. Definitions without a suffix embed
  \<^verbatim>\<open>manager.js\<close>; the suffix \<open>_part000\<close> marks the embedding of the older copy,
  given wherever its text differs.

  Promises are modelled by their outcome: a function that returns a promise returns the
  pair of its settlement (\<open>Inl\<close> a rejection or a thrown error, \<open>Inr\<close> the value it
  resolves to) and the state it leaves behind. The store answers every command (a store
  that cannot be reached is not modelled); a request to the source system may be
  rejected. Logging is not modelled.
\<close>

datatype error =
    JobMustBeProvided
  | JobConstructionError
  | TypeError
  | SyntaxError
  | SourceQueryError string
  | FilterNonJsPath
  | FilterModuleNotFound
  | FilterModuleNotFunction
  | FilterNotInterpretable
  | FilterNoArgument
  | FilterInvalid
  | ComparatorInvalid
  | ModuleNotFound

subsection \<open>Jobs\<close>

text \<open>
  A job definition is the plain object \<^verbatim>\<open>{index, type}\<close> built by
  \<^verbatim>\<open>prepareNewJobs\<close>; count enrichment adds \<^verbatim>\<open>count\<close>. Document counts are
  JavaScript numbers holding integers far below \<open>2^53\<close>; they are modelled as \<open>int\<close>,
  and so are the hash values of the store, which hold their decimal text.
\<close>

record indexed =
  index :: string

record job_target = indexed +
  type :: string

record job = job_target +
  count :: int

text \<open>\<^verbatim>\<open>parseInt\<close> on the decimal text of an integer is that integer.\<close>

definition parseInt :: "int \<Rightarrow> int" where
  "parseInt n = n"

text \<open>
  The values JavaScript takes for false in a condition: \<^verbatim>\<open>undefined\<close>, \<^verbatim>\<open>null\<close>,
  \<^verbatim>\<open>false\<close>, the number zero, \<^verbatim>\<open>NaN\<close> and the empty string.
\<close>

datatype falsy = JSUndefined | JSNull | JSFalse | JSZero | JSNaN | JSEmptyString

text \<open>
  The argument of \<^verbatim>\<open>queueJob\<close> and \<^verbatim>\<open>completeJob\<close>: a falsy value, an instance of
  \<^verbatim>\<open>Job\<close>, or a plain object with the job's fields. What \<^verbatim>\<open>new Job(v)\<close> does with
  a falsy \<open>v\<close> is decided by \<^verbatim>\<open>./job\<close>, which is not among the source files, and the
  spec does not say it either: a falsy argument therefore carries, as a parameter,
  the outcome of that construction (the error thrown, or the job made).
\<close>

datatype job_arg = Falsy falsy "error + job" | Instance job | Plain job

text \<open>
  \<^verbatim>\<open>!job\<close> is false for an object, so for an instance and for a plain object.
\<close>

fun truthy :: "job_arg \<Rightarrow> bool" where
  "truthy (Falsy v outcome) = False"
| "truthy (Instance j) = True"
| "truthy (Plain p) = True"

text \<open>
  Modelled from the spec: the class \<^verbatim>\<open>Job\<close> of \<^verbatim>\<open>./job\<close>, which is not among
  the source files. The spec gives a job the identity
  \<open>id = collection + separator + subcollection\<close>, a reversible concatenation whose
  separator is not permitted inside either name, and says that job construction must
  fail if a name holds it. The separator's character is not fixed by the spec; its
  example writes ids as \<^verbatim>\<open>B:t1\<close>. A job made from an id whose count is missing from
  the hash gets the default count zero. The construction from a falsy value has the
  outcome that the argument carries.
\<close>

definition SEPARATOR :: char where
  "SEPARATOR = CHR '':''"

definition valid_name :: "string \<Rightarrow> bool" where
  "valid_name n = (SEPARATOR \<notin> set n)"

definition valid_job :: "job \<Rightarrow> bool" where
  "valid_job j = (valid_name (index j) \<and> valid_name (type j))"

definition getID :: "job \<Rightarrow> string" where
  "getID j = index j @ SEPARATOR # type j"

fun new_Job :: "job_arg \<Rightarrow> error + job" where
  "new_Job (Falsy v outcome) = outcome"
| "new_Job (Instance j) = (if valid_job j then Inr j else Inl JobConstructionError)"
| "new_Job (Plain p) = (if valid_job p then Inr p else Inl JobConstructionError)"

definition createFromID :: "string \<Rightarrow> int option \<Rightarrow> error + job" where
  "createFromID jobID cnt =
     (case dropWhile (\<lambda>c. c \<noteq> SEPARATOR) jobID of
        [] \<Rightarrow> Inl JobConstructionError
      | _ # rest \<Rightarrow>
          new_Job (Plain \<lparr>index = takeWhile (\<lambda>c. c \<noteq> SEPARATOR) jobID, type = rest,
                           count = (case cnt of None \<Rightarrow> 0 | Some c \<Rightarrow> parseInt c)\<rparr>))"

text \<open>
  \<^verbatim>\<open>if (!(job instanceof Job)) { job = new Job(job); }\<close>, the first statement of
  \<^verbatim>\<open>queueJob\<close> and \<^verbatim>\<open>completeJob\<close>.
\<close>

fun coerce_job :: "job_arg \<Rightarrow> error + job" where
  "coerce_job (Instance j) = Inr j"
| "coerce_job a = new_Job a"

text \<open>
  An argument the callers can build: an instance came out of the constructor, so its
  names are free of the separator, and so are those of a job that the constructor
  makes from a falsy value.
\<close>

fun wellformed_arg :: "job_arg \<Rightarrow> bool" where
  "wellformed_arg (Falsy v outcome) = (case outcome of Inl e \<Rightarrow> True | Inr j \<Rightarrow> valid_job j)"
| "wellformed_arg (Instance j) = valid_job j"
| "wellformed_arg (Plain p) = True"

section \<open>The shared store\<close>

text \<open>
  The store is a Redis server seen through \<^verbatim>\<open>ioredis\<close>: lists and hashes under
  string keys. A hash keeps its fields in insertion order, which is the order
  \<^verbatim>\<open>hgetall\<close> and \<^verbatim>\<open>hvals\<close> enumerate; a key that was never written, or was
  deleted, reads as empty. Every command is atomic.
\<close>

record store =
  lists :: "string \<Rightarrow> string list"
  hashes :: "string \<Rightarrow> (string \<times> int) list"

definition empty_store :: store where
  "empty_store = \<lparr>lists = (\<lambda>_. []), hashes = (\<lambda>_. [])\<rparr>"

definition lpop :: "string \<Rightarrow> store \<Rightarrow> string option \<times> store" where
  "lpop key s =
     (case lists s key of
        [] \<Rightarrow> (None, s)
      | x # xs \<Rightarrow> (Some x, s\<lparr>lists := (lists s)(key := xs)\<rparr>))"

definition rpush :: "string \<Rightarrow> string \<Rightarrow> store \<Rightarrow> nat \<times> store" where
  "rpush key v s =
     (length (lists s key) + 1, s\<lparr>lists := (lists s)(key := lists s key @ [v])\<rparr>)"

definition hset :: "string \<Rightarrow> string \<Rightarrow> int \<Rightarrow> store \<Rightarrow> nat \<times> store" where
  "hset key field v s =
     (if field \<in> fst ` set (hashes s key) then 0 else 1,
      s\<lparr>hashes := (hashes s)(key := AList.update field v (hashes s key))\<rparr>)"

definition hget :: "string \<Rightarrow> string \<Rightarrow> store \<Rightarrow> int option" where
  "hget key field s = map_of (hashes s key) field"

definition hdel :: "string \<Rightarrow> string \<Rightarrow> store \<Rightarrow> nat \<times> store" where
  "hdel key field s =
     (if field \<in> fst ` set (hashes s key) then 1 else 0,
      s\<lparr>hashes := (hashes s)(key := AList.delete field (hashes s key))\<rparr>)"

definition hgetall :: "string \<Rightarrow> store \<Rightarrow> (string \<times> int) list" where
  "hgetall key s = hashes s key"

definition hvals :: "string \<Rightarrow> store \<Rightarrow> int list" where
  "hvals key s = map snd (hashes s key)"

definition hkeys :: "string \<Rightarrow> store \<Rightarrow> string list" where
  "hkeys key s = map fst (hashes s key)"

definition del :: "string \<Rightarrow> store \<Rightarrow> nat \<times> store" where
  "del key s =
     (if lists s key = [] \<and> hashes s key = [] then 0 else 1,
      s\<lparr>lists := (lists s)(key := []), hashes := (hashes s)(key := [])\<rparr>)"

definition BACKLOG_QUEUE_KEY :: string where
  "BACKLOG_QUEUE_KEY = ''backlog_queue''"

definition BACKLOG_HSET_KEY :: string where
  "BACKLOG_HSET_KEY = ''backlog_hset''"

definition COMPLETED_KEY :: string where
  "COMPLETED_KEY = ''completed''"

section \<open>Backlog and completed ledger (manager.js)\<close>

definition fetchJob :: "store \<Rightarrow> (error + job option) \<times> store" where
  "fetchJob s =
     (case lpop BACKLOG_QUEUE_KEY s of
        (None, s1) \<Rightarrow> (Inr None, s1)
      | (Some jobID, s1) \<Rightarrow>
          (case createFromID jobID (hget BACKLOG_HSET_KEY jobID s1) of
             Inl e \<Rightarrow> (Inl e, s1)
           | Inr job \<Rightarrow> (Inr (Some job), snd (hdel BACKLOG_HSET_KEY (getID job) s1))))"

text \<open>
  \<^verbatim>\<open>queueJob\<close> resolves to nothing when the job was already in the hash, and to the
  queue's new length, the reply of \<^verbatim>\<open>rpush\<close>, otherwise.
\<close>

definition queueJob :: "job_arg \<Rightarrow> store \<Rightarrow> (error + nat option) \<times> store" where
  "queueJob a s =
     (case coerce_job a of
        Inl e \<Rightarrow> (Inl e, s)
      | Inr job \<Rightarrow>
          (case hset BACKLOG_HSET_KEY (getID job) (count job) s of
             (numberAdded, s1) \<Rightarrow>
               if numberAdded = 0 then (Inr None, s1)
               else (case rpush BACKLOG_QUEUE_KEY (getID job) s1 of
                       (n, s2) \<Rightarrow> (Inr (Some n), s2))))"

definition completeJob :: "job_arg \<Rightarrow> store \<Rightarrow> (error + nat) \<times> store" where
  "completeJob a s =
     (case coerce_job a of
        Inl e \<Rightarrow> (Inl e, s)
      | Inr job \<Rightarrow>
          (case hset COMPLETED_KEY (getID job) (count job) s of
             (numberAdded, s1) \<Rightarrow> (Inr numberAdded, s1)))"

definition clearBacklogJobs :: "store \<Rightarrow> nat \<times> store" where
  "clearBacklogJobs s = del BACKLOG_HSET_KEY (snd (del BACKLOG_QUEUE_KEY s))"

text \<open>
  \<^verbatim>\<open>_.map\<close> over the object \<^verbatim>\<open>hgetall\<close> returns; a \<^verbatim>\<open>createFromID\<close> that throws
  rejects the whole promise.
\<close>

fun createAll :: "(string \<times> int) list \<Rightarrow> error + job list" where
  "createAll [] = Inr []"
| "createAll ((jobID, cnt) # rest) =
     (case createFromID jobID (Some cnt) of
        Inl e \<Rightarrow> Inl e
      | Inr j \<Rightarrow> (case createAll rest of Inl e \<Rightarrow> Inl e | Inr js \<Rightarrow> Inr (j # js)))"

definition getBacklogJobs :: "store \<Rightarrow> error + job list" where
  "getBacklogJobs s = createAll (hgetall BACKLOG_HSET_KEY s)"

definition getBacklogCount :: "store \<Rightarrow> int" where
  "getBacklogCount s = foldl (\<lambda>total c. total + parseInt c) 0 (hvals BACKLOG_HSET_KEY s)"

definition getCompletedJobs :: "store \<Rightarrow> error + job list" where
  "getCompletedJobs s = createAll (hgetall COMPLETED_KEY s)"

definition getCompletedCount :: "store \<Rightarrow> int" where
  "getCompletedCount s = foldl (\<lambda>total c. total + parseInt c) 0 (hvals COMPLETED_KEY s)"

definition clearCompletedJobs :: "store \<Rightarrow> nat \<times> store" where
  "clearCompletedJobs s = del COMPLETED_KEY s"

section \<open>Backlog operations of the older copy (part_000)\<close>


definition queueJob_part000 :: "job_arg \<Rightarrow> store \<Rightarrow> (error + nat option) \<times> store" where
  "queueJob_part000 a s =
     (if \<not> truthy a then (Inl JobMustBeProvided, s)
      else (case coerce_job a of
        Inl e \<Rightarrow> (Inl e, s)
      | Inr job \<Rightarrow>
          (case hset BACKLOG_HSET_KEY (getID job) (count job) s of
             (numberAdded, s1) \<Rightarrow>
               if numberAdded = 0 then (Inr None, s1)
               else (case rpush BACKLOG_QUEUE_KEY (getID job) s1 of
                       (n, s2) \<Rightarrow> (Inr (Some n), s2)))))"


section \<open>Sequences of calls\<close>

text \<open>
  The calls a coordinator and its workers make on the backlog and the ledger, one after
  another; \<open>run\<close> gives the store they leave behind.
\<close>

datatype api_call =
    QueueJob job_arg
  | FetchJob
  | CompleteJob job_arg
  | ClearBacklogJobs
  | ClearCompletedJobs

fun perform :: "api_call \<Rightarrow> store \<Rightarrow> store" where
  "perform (QueueJob a) s = snd (queueJob a s)"
| "perform FetchJob s = snd (fetchJob s)"
| "perform (CompleteJob a) s = snd (completeJob a s)"
| "perform ClearBacklogJobs s = snd (clearBacklogJobs s)"
| "perform ClearCompletedJobs s = snd (clearCompletedJobs s)"

definition run :: "api_call list \<Rightarrow> store \<Rightarrow> store" where
  "run calls s = fold perform calls s"

fun wellformed_call :: "api_call \<Rightarrow> bool" where
  "wellformed_call (QueueJob a) = wellformed_arg a"
| "wellformed_call (CompleteJob a) = wellformed_arg a"
| "wellformed_call _ = True"

text \<open>
  The backlog's invariant between calls: the queue holds every field of the hash once
  and nothing else, and every field of either hash is the id of a job.
\<close>

definition valid_id :: "string \<Rightarrow> bool" where
  "valid_id i = (\<exists>j. valid_job j \<and> getID j = i)"

definition store_inv :: "store \<Rightarrow> bool" where
  "store_inv s =
     (distinct (lists s BACKLOG_QUEUE_KEY)
      \<and> set (lists s BACKLOG_QUEUE_KEY) = set (hkeys BACKLOG_HSET_KEY s)
      \<and> distinct (hkeys BACKLOG_HSET_KEY s)
      \<and> (\<forall>i \<in> set (hkeys BACKLOG_HSET_KEY s). valid_id i)
      \<and> distinct (hkeys COMPLETED_KEY s)
      \<and> (\<forall>i \<in> set (hkeys COMPLETED_KEY s). valid_id i))"

section \<open>Concurrent callers of fetchJob\<close>

text \<open>
  \<^verbatim>\<open>fetchJob\<close> sends three commands to the store, each when the reply to the one
  before has arrived: \<^verbatim>\<open>lpop\<close>, \<^verbatim>\<open>hget\<close>, \<^verbatim>\<open>hdel\<close>. The store runs one command
  at a time, so concurrent callers (workers in processes of their own) interleave at
  the commands. A caller is at one of four points of the promise chain: it has called
  and its \<^verbatim>\<open>lpop\<close> is pending; it holds the popped id and its \<^verbatim>\<open>hget\<close> is pending;
  it has created the job and its \<^verbatim>\<open>hdel\<close> is pending; or its promise has settled.
\<close>

datatype caller =
    Called
  | Popped string
  | Created job
  | Returned "error + job option"

fun advance :: "caller \<Rightarrow> store \<Rightarrow> caller \<times> store" where
  "advance Called s =
     (case lpop BACKLOG_QUEUE_KEY s of
        (None, s1) \<Rightarrow> (Returned (Inr None), s1)
      | (Some jobID, s1) \<Rightarrow> (Popped jobID, s1))"
| "advance (Popped jobID) s =
     (case createFromID jobID (hget BACKLOG_HSET_KEY jobID s) of
        Inl e \<Rightarrow> (Returned (Inl e), s)
      | Inr job \<Rightarrow> (Created job, s))"
| "advance (Created job) s =
     (Returned (Inr (Some job)), snd (hdel BACKLOG_HSET_KEY (getID job) s))"
| "advance (Returned r) s = (Returned r, s)"

text \<open>
  A schedule names, step by step, the caller whose pending command the store runs next;
  a step for a caller that has settled, or that does not exist, changes nothing.
\<close>

fun step_at :: "nat \<Rightarrow> caller list \<times> store \<Rightarrow> caller list \<times> store" where
  "step_at i (cs, s) =
     (if i < length cs
      then (case advance (cs ! i) s of (c, s1) \<Rightarrow> (cs[i := c], s1))
      else (cs, s))"

definition interleave :: "nat list \<Rightarrow> caller list \<times> store \<Rightarrow> caller list \<times> store" where
  "interleave sched cfg = fold step_at sched cfg"

fun settled :: "caller \<Rightarrow> bool" where
  "settled (Returned r) = True"
| "settled _ = False"

fun returned_job :: "caller \<Rightarrow> job option" where
  "returned_job (Returned (Inr (Some j))) = Some j"
| "returned_job _ = None"

definition returned_jobs :: "caller list \<Rightarrow> job list" where
  "returned_jobs cs = List.map_filter returned_job cs"

fun no_job :: "caller \<Rightarrow> bool" where
  "no_job (Returned (Inr None)) = True"
| "no_job _ = False"

text \<open>The id a caller has taken off the queue, and the turns it still needs.\<close>

fun held :: "caller \<Rightarrow> string option" where
  "held Called = None"
| "held (Popped jobID) = Some jobID"
| "held (Created j) = Some (getID j)"
| "held (Returned (Inr (Some j))) = Some (getID j)"
| "held (Returned _) = None"

fun failed :: "caller \<Rightarrow> bool" where
  "failed (Returned (Inl e)) = True"
| "failed _ = False"

fun turns_left :: "caller \<Rightarrow> nat" where
  "turns_left Called = 3"
| "turns_left (Popped jobID) = 2"
| "turns_left (Created j) = 1"
| "turns_left (Returned r) = 0"

text \<open>
  What holds between the steps of any interleaving that starts with the ids \<open>ids\<close> in
  the queue: the ids still queued and the ids taken by callers are, together, the ids
  the queue started with, each once; a caller that was told "no job" has seen the queue
  empty, and it stays empty; no call has failed.
\<close>

definition calls_inv :: "string list \<Rightarrow> caller list \<times> store \<Rightarrow> bool" where
  "calls_inv ids cfg =
     (case cfg of (cs, s) \<Rightarrow>
        distinct (lists s BACKLOG_QUEUE_KEY @ List.map_filter held cs)
        \<and> set (lists s BACKLOG_QUEUE_KEY @ List.map_filter held cs) = set ids
        \<and> (list_ex no_job cs \<longrightarrow> lists s BACKLOG_QUEUE_KEY = [])
        \<and> \<not> list_ex failed cs)"

section \<open>Filters and comparator\<close>

text \<open>
  What discovery returns: objects with a \<^verbatim>\<open>name\<close>. An index object holds under
  \<^verbatim>\<open>mappings\<close> its type objects, by name and in the order in which the object
  enumerates them; \<open>other\<close> stands for every other property.
\<close>

datatype target = Target (name: string) (mappings: "(string \<times> target) list") (other: string)

fun set_name :: "target \<Rightarrow> string \<Rightarrow> target" where
  "set_name (Target old_name ms r) new_name = Target new_name ms r"

text \<open>
  A filter or comparator argument is a string, a regular expression, a function or
  something else. A regular expression is what its \<^verbatim>\<open>test\<close> answers. A function
  has its declared arity (\<^verbatim>\<open>length\<close>) and a body; the body of a filter says whether
  the result is truthy when lodash calls it with the value, its position and the whole
  collection, the body of a comparator gives the number it returns for two index names.
  Regular expressions are taken without the global flag, so that \<^verbatim>\<open>test\<close> keeps no
  position between calls, and the functions to return rather than throw.
\<close>

type_synonym regexp = "string \<Rightarrow> bool"

type_synonym predicate = "target \<Rightarrow> nat \<Rightarrow> target list \<Rightarrow> bool"

type_synonym comparator = "string \<Rightarrow> string \<Rightarrow> int"

datatype 'f js_function = Function (arity: nat) (body: 'f)

datatype 'f jsval =
    JSString string
  | JSRegExp regexp
  | JSFunction "'f js_function"
  | JSOther

record selection = indexed +
  types :: "string list"

text \<open>
  What the module takes from Node: \<^verbatim>\<open>path.extname\<close>, \<^verbatim>\<open>require\<close> (\<open>None\<close> when
  it throws), the \<^verbatim>\<open>RegExp\<close> constructor (\<open>None\<close> when the pattern does not
  compile) and \<^verbatim>\<open>Array.prototype.sort\<close> under a comparison function.
\<close>

record platform =
  extname :: "string \<Rightarrow> string"
  require_filter :: "string \<Rightarrow> predicate jsval option"
  require_comparator :: "string \<Rightarrow> comparator jsval option"
  RegExp :: "string \<Rightarrow> regexp option"
  Array_sort :: "(selection \<Rightarrow> selection \<Rightarrow> int) \<Rightarrow> selection list \<Rightarrow> selection list"

text \<open>
  The source system's client: \<^verbatim>\<open>indices.get\<close> answers with the matching index
  objects by name, \<^verbatim>\<open>count\<close> with the \<^verbatim>\<open>count\<close> of its reply; either may reject.
\<close>

record source_client =
  indices_get :: "string \<Rightarrow> error + (string \<times> target) list"
  count_docs :: "string \<Rightarrow> string \<Rightarrow> error + int"

text \<open>
  The module-level variables. Both files declare \<^verbatim>\<open>indexFilter\<close>,
  \<^verbatim>\<open>indexComparator\<close>, \<^verbatim>\<open>typeFilter\<close> and \<^verbatim>\<open>source\<close>, all \<^verbatim>\<open>null\<close> at first;
  \<^verbatim>\<open>manager.js\<close> adds \<^verbatim>\<open>redis\<close>, the store's client (here the number of the
  server it talks to), the older copy adds \<^verbatim>\<open>totalCount\<close>.
\<close>

record module_vars =
  indexFilter :: "predicate jsval option"
  indexComparator :: "comparator jsval option"
  typeFilter :: "predicate jsval option"
  source :: "source_client option"

record module_state = module_vars +
  redis :: "nat option"

record module_state_part000 = module_vars +
  totalCount :: int

subsection \<open>Filter resolution (manager.js)\<close>

definition getFilterFunction :: "platform \<Rightarrow> predicate jsval \<Rightarrow> error + predicate js_function" where
  "getFilterFunction pf filter_arg =
     (case
        (case filter_arg of
           JSString str \<Rightarrow>
             if length (extname pf str) > 1 then
               (if extname pf str \<noteq> ''.js'' then Inl FilterNonJsPath
                else (case require_filter pf str of
                        None \<Rightarrow> Inl FilterModuleNotFound
                      | Some (JSFunction f) \<Rightarrow> Inr f
                      | Some _ \<Rightarrow> Inl FilterModuleNotFunction))
             else (case RegExp pf str of
                     None \<Rightarrow> Inl SyntaxError
                   | Some regex \<Rightarrow> Inr (Function 1 (\<lambda>target i collection. regex (name target))))
         | JSRegExp regex \<Rightarrow> Inr (Function 1 (\<lambda>target i collection. regex (name target)))
         | JSFunction f \<Rightarrow> Inr f
         | JSOther \<Rightarrow> Inl FilterNotInterpretable)
      of
        Inl e \<Rightarrow> Inl e
      | Inr filterFunction \<Rightarrow>
          if arity filterFunction < 1 then Inl FilterNoArgument else Inr filterFunction)"

text \<open>
  The setters assign after the resolution: when it throws, the variable keeps its value.
\<close>

definition setIndexFilter :: "platform \<Rightarrow> predicate jsval \<Rightarrow> module_state \<Rightarrow> error + module_state" where
  "setIndexFilter pf filter_arg m =
     (case getFilterFunction pf filter_arg of
        Inl e \<Rightarrow> Inl e
      | Inr f \<Rightarrow> Inr (m\<lparr>indexFilter := Some (JSFunction f)\<rparr>))"

definition setTypeFilter :: "platform \<Rightarrow> predicate jsval \<Rightarrow> module_state \<Rightarrow> error + module_state" where
  "setTypeFilter pf filter_arg m =
     (case getFilterFunction pf filter_arg of
        Inl e \<Rightarrow> Inl e
      | Inr f \<Rightarrow> Inr (m\<lparr>typeFilter := Some (JSFunction f)\<rparr>))"

definition setIndexComparator :: "platform \<Rightarrow> comparator jsval \<Rightarrow> module_state \<Rightarrow> error + module_state" where
  "setIndexComparator pf comparator_arg m =
     (case (case comparator_arg of
              JSString str \<Rightarrow> (case require_comparator pf str of None \<Rightarrow> Inl ModuleNotFound | Some v \<Rightarrow> Inr v)
            | _ \<Rightarrow> Inr comparator_arg)
      of
        Inl e \<Rightarrow> Inl e
      | Inr (JSFunction f) \<Rightarrow>
          if arity f \<noteq> 2 then Inl ComparatorInvalid
          else Inr (m\<lparr>indexComparator := Some (JSFunction f)\<rparr>)
      | Inr _ \<Rightarrow> Inl ComparatorInvalid)"

subsection \<open>Filter setters of the older copy (part_000)\<close>

definition setIndexFilter_part000 ::
    "predicate jsval \<Rightarrow> module_state_part000 \<Rightarrow> error + module_state_part000" where
  "setIndexFilter_part000 filter_arg m =
     (case filter_arg of
        JSRegExp regex \<Rightarrow> Inr (m\<lparr>indexFilter := Some filter_arg\<rparr>)
      | JSFunction f \<Rightarrow>
          if arity f = 1 then Inr (m\<lparr>indexFilter := Some filter_arg\<rparr>) else Inl FilterInvalid
      | _ \<Rightarrow> Inl FilterInvalid)"

definition setTypeFilter_part000 ::
    "predicate jsval \<Rightarrow> module_state_part000 \<Rightarrow> error + module_state_part000" where
  "setTypeFilter_part000 filter_arg m =
     (case filter_arg of
        JSRegExp regex \<Rightarrow> Inr (m\<lparr>typeFilter := Some filter_arg\<rparr>)
      | JSFunction f \<Rightarrow>
          if arity f = 1 then Inr (m\<lparr>typeFilter := Some filter_arg\<rparr>) else Inl FilterInvalid
      | _ \<Rightarrow> Inl FilterInvalid)"

definition setIndexComparator_part000 ::
    "comparator jsval \<Rightarrow> module_state_part000 \<Rightarrow> error + module_state_part000" where
  "setIndexComparator_part000 comparator_arg m =
     (case comparator_arg of
        JSFunction f \<Rightarrow>
          if arity f \<noteq> 2 then Inl ComparatorInvalid
          else Inr (m\<lparr>indexComparator := Some comparator_arg\<rparr>)
      | _ \<Rightarrow> Inl ComparatorInvalid)"

subsection \<open>Filtering indices and types\<close>

text \<open>
  \<^verbatim>\<open>_.filter\<close> calls its predicate with the value, its position and the collection.
\<close>

definition lodash_filter :: "'a list \<Rightarrow> ('a \<Rightarrow> nat \<Rightarrow> 'a list \<Rightarrow> bool) \<Rightarrow> 'a list" where
  "lodash_filter collection p =
     map snd (filter (\<lambda>(i, x). p x i collection) (enumerate 0 collection))"

definition allTypes :: "target \<Rightarrow> target list" where
  "allTypes ix = map (\<lambda>(nm, ty). set_name ty nm) (mappings ix)"

definition selectedIndices :: "'a module_vars_scheme \<Rightarrow> target list \<Rightarrow> target list" where
  "selectedIndices m allIndices =
     (case indexFilter m of
        Some (JSFunction f) \<Rightarrow> lodash_filter allIndices (body f)
      | _ \<Rightarrow> allIndices)"

definition selectedTypes :: "'a module_vars_scheme \<Rightarrow> target \<Rightarrow> target list" where
  "selectedTypes m ix =
     (case typeFilter m of
        Some (JSFunction f) \<Rightarrow> lodash_filter (allTypes ix) (body f)
      | _ \<Rightarrow> allTypes ix)"

definition typeNames :: "'a module_vars_scheme \<Rightarrow> target \<Rightarrow> string list" where
  "typeNames m ix = map name (selectedTypes m ix)"

definition filterIndicesAndTypes :: "'a module_vars_scheme \<Rightarrow> target list \<Rightarrow> selection list" where
  "filterIndicesAndTypes m allIndices =
     foldl (\<lambda>result ix.
              if length (typeNames m ix) > 0
              then result @ [\<lparr>index = name ix, types = typeNames m ix\<rparr>]
              else result)
       [] (selectedIndices m allIndices)"

text \<open>The older copy also takes a regular expression stored as the filter.\<close>

definition selectedIndices_part000 :: "'a module_vars_scheme \<Rightarrow> target list \<Rightarrow> target list" where
  "selectedIndices_part000 m allIndices =
     (case indexFilter m of
        Some (JSRegExp regex) \<Rightarrow> lodash_filter allIndices (\<lambda>ix i collection. regex (name ix))
      | Some (JSFunction f) \<Rightarrow> lodash_filter allIndices (body f)
      | _ \<Rightarrow> allIndices)"

definition selectedTypes_part000 :: "'a module_vars_scheme \<Rightarrow> target \<Rightarrow> target list" where
  "selectedTypes_part000 m ix =
     (case typeFilter m of
        Some (JSRegExp regex) \<Rightarrow> lodash_filter (allTypes ix) (\<lambda>ty i collection. regex (name ty))
      | Some (JSFunction f) \<Rightarrow> lodash_filter (allTypes ix) (body f)
      | _ \<Rightarrow> allTypes ix)"

definition typeNames_part000 :: "'a module_vars_scheme \<Rightarrow> target \<Rightarrow> string list" where
  "typeNames_part000 m ix = map name (selectedTypes_part000 m ix)"

definition filterIndicesAndTypes_part000 :: "'a module_vars_scheme \<Rightarrow> target list \<Rightarrow> selection list" where
  "filterIndicesAndTypes_part000 m allIndices =
     foldl (\<lambda>result ix.
              if length (typeNames_part000 m ix) > 0
              then result @ [\<lparr>index = name ix, types = typeNames_part000 m ix\<rparr>]
              else result)
       [] (selectedIndices_part000 m allIndices)"

text \<open>
  A stored filter's verdict on the element at position \<open>i\<close> of a collection, in the
  words of the specification: the predicate's answer, and acceptance of everything when
  no filter is set. In \<^verbatim>\<open>manager.js\<close> a stored filter is a function; the older copy
  stores a regular expression as it is and tests the element's name.
\<close>

fun accepts :: "predicate jsval option \<Rightarrow> target list \<Rightarrow> nat \<Rightarrow> bool" where
  "accepts (Some (JSFunction f)) collection i = body f (collection ! i) i collection"
| "accepts _ collection i = True"

fun accepts_part000 :: "predicate jsval option \<Rightarrow> target list \<Rightarrow> nat \<Rightarrow> bool" where
  "accepts_part000 (Some (JSRegExp regex)) collection i = regex (name (collection ! i))"
| "accepts_part000 (Some (JSFunction f)) collection i = body f (collection ! i) i collection"
| "accepts_part000 _ collection i = True"

section \<open>Discovery, job factory and count enrichment\<close>

text \<open>
  Besides the store, the functions below read and write the module's variables and send
  requests to the source system. \<open>requests\<close> lists the count requests sent so far, by
  index and type, in the order of sending; the source's answers do not change during a
  call.
\<close>

type_synonym request = "string \<times> string"

record 'm world =
  vars :: 'm
  requests :: "request list"

text \<open>
  \<^verbatim>\<open>_.reduce\<close> over the response object, pushing every index under its name.
\<close>

definition getIndices :: "source_client \<Rightarrow> string \<Rightarrow> error + target list" where
  "getIndices client targetIndices =
     (case indices_get client targetIndices of
        Inl e \<Rightarrow> Inl e
      | Inr response \<Rightarrow> Inr (map (\<lambda>(nm, ix). set_name ix nm) response))"

text \<open>
  With \<^verbatim>\<open>source\<close> still \<^verbatim>\<open>null\<close>, \<^verbatim>\<open>getIndices\<close> reads a property of
  \<^verbatim>\<open>null\<close>.
\<close>

definition prepareNewJobs :: "platform \<Rightarrow> 'a module_vars_scheme \<Rightarrow> string \<Rightarrow> error + job_target list" where
  "prepareNewJobs pf m indexNames =
     (case source m of
        None \<Rightarrow> Inl TypeError
      | Some client \<Rightarrow>
          (case getIndices client indexNames of
             Inl e \<Rightarrow> Inl e
           | Inr allIndices \<Rightarrow>
               (let filteredTargets = filterIndicesAndTypes m allIndices;
                    sortedTarget =
                      (case indexComparator m of
                         Some (JSFunction c) \<Rightarrow>
                           Array_sort pf (\<lambda>a b. body c (index a) (index b)) filteredTargets
                       | _ \<Rightarrow> filteredTargets)
                in Inr (concat (map (\<lambda>target. map (\<lambda>ty. \<lparr>index = index target, type = ty\<rparr>)
                                                  (types target)) sortedTarget)))))"

definition prepareNewJobs_part000 :: "platform \<Rightarrow> 'a module_vars_scheme \<Rightarrow> string \<Rightarrow> error + job_target list" where
  "prepareNewJobs_part000 pf m indexNames =
     (case source m of
        None \<Rightarrow> Inl TypeError
      | Some client \<Rightarrow>
          (case getIndices client indexNames of
             Inl e \<Rightarrow> Inl e
           | Inr allIndices \<Rightarrow>
               (let filteredTargets = filterIndicesAndTypes_part000 m allIndices;
                    sortedTarget =
                      (case indexComparator m of
                         Some (JSFunction c) \<Rightarrow>
                           Array_sort pf (\<lambda>a b. body c (index a) (index b)) filteredTargets
                       | _ \<Rightarrow> filteredTargets)
                in Inr (concat (map (\<lambda>target. map (\<lambda>ty. \<lparr>index = index target, type = ty\<rparr>)
                                                  (types target)) sortedTarget)))))"

text \<open>
  \<^verbatim>\<open>Promise.mapSeries\<close>: the request for a job is sent when the job before it has its
  count; the first rejection rejects the whole promise and nothing more is sent.
\<close>

fun addCountToJobs ::
    "job_target list \<Rightarrow> module_state world \<Rightarrow> (error + job list) \<times> module_state world" where
  "addCountToJobs [] w = (Inr [], w)"
| "addCountToJobs (job # jobs) w =
     (case source (vars w) of
        None \<Rightarrow> (Inl TypeError, w)
      | Some client \<Rightarrow>
          (case count_docs client (index job) (type job) of
             Inl e \<Rightarrow> (Inl e, w\<lparr>requests := requests w @ [(index job, type job)]\<rparr>)
           | Inr c \<Rightarrow>
               (case addCountToJobs jobs (w\<lparr>requests := requests w @ [(index job, type job)]\<rparr>) of
                  (Inl e, w') \<Rightarrow> (Inl e, w')
                | (Inr counted, w') \<Rightarrow>
                    (Inr (\<lparr>index = index job, type = type job, count = parseInt c\<rparr> # counted), w'))))"

text \<open>The older copy adds every count to \<^verbatim>\<open>totalCount\<close> as it arrives.\<close>

fun addCountToJobs_part000 ::
    "job_target list \<Rightarrow> module_state_part000 world \<Rightarrow> (error + job list) \<times> module_state_part000 world" where
  "addCountToJobs_part000 [] w = (Inr [], w)"
| "addCountToJobs_part000 (job # jobs) w =
     (case source (vars w) of
        None \<Rightarrow> (Inl TypeError, w)
      | Some client \<Rightarrow>
          (case count_docs client (index job) (type job) of
             Inl e \<Rightarrow> (Inl e, w\<lparr>requests := requests w @ [(index job, type job)]\<rparr>)
           | Inr c \<Rightarrow>
               (case addCountToJobs_part000 jobs
                       (w\<lparr>requests := requests w @ [(index job, type job)],
                          vars := (vars w)\<lparr>totalCount := totalCount (vars w) + parseInt c\<rparr>\<rparr>) of
                  (Inl e, w') \<Rightarrow> (Inl e, w')
                | (Inr counted, w') \<Rightarrow>
                    (Inr (\<lparr>index = index job, type = type job, count = parseInt c\<rparr> # counted), w'))))"

section \<open>The orchestrator\<close>

text \<open>
  The id of the job that \<^verbatim>\<open>queueJob\<close> constructs from a job definition.
\<close>

definition target_id :: "job_target \<Rightarrow> string" where
  "target_id t = index t @ SEPARATOR # type t"

text \<open>
  \<^verbatim>\<open>Promise.each(jobs, queueJob)\<close>: one job after the other, each a plain object;
  the first rejection ends it.
\<close>

fun each_queueJob :: "job list \<Rightarrow> store \<Rightarrow> (error + job list) \<times> store" where
  "each_queueJob [] s = (Inr [], s)"
| "each_queueJob (job # jobs) s =
     (case queueJob (Plain job) s of
        (Inl e, s1) \<Rightarrow> (Inl e, s1)
      | (Inr r, s1) \<Rightarrow>
          (case each_queueJob jobs s1 of
             (Inl e, s2) \<Rightarrow> (Inl e, s2)
           | (Inr queued, s2) \<Rightarrow> (Inr (job # queued), s2)))"

fun each_queueJob_part000 :: "job list \<Rightarrow> store \<Rightarrow> (error + job list) \<times> store" where
  "each_queueJob_part000 [] s = (Inr [], s)"
| "each_queueJob_part000 (job # jobs) s =
     (case queueJob_part000 (Plain job) s of
        (Inl e, s1) \<Rightarrow> (Inl e, s1)
      | (Inr r, s1) \<Rightarrow>
          (case each_queueJob_part000 jobs s1 of
             (Inl e, s2) \<Rightarrow> (Inl e, s2)
           | (Inr queued, s2) \<Rightarrow> (Inr (job # queued), s2)))"

text \<open>
  Modelled from the spec: \<^verbatim>\<open>JSON.parse\<close> applied to a \<^verbatim>\<open>Job\<close> of \<^verbatim>\<open>./job\<close>, which
  is not among the source files. \<^verbatim>\<open>initialize\<close> maps it over the completed jobs and
  looks among the results for an object whose \<^verbatim>\<open>index\<close> is a prepared job's; the spec
  says that a prepared job is dropped when its index name matches a completed entry's
  index. So parsing a job's text yields an object that carries the job's collection name
  as \<^verbatim>\<open>index\<close> (and its sub-collection as \<^verbatim>\<open>type\<close>).
\<close>

definition JSON_parse :: "job \<Rightarrow> job_target" where
  "JSON_parse j = \<lparr>index = index j, type = type j\<rparr>"

text \<open>
  \<^verbatim>\<open>!_.find(completedJobs, {index: potentialJob.index})\<close>: no completed job has the
  potential job's index.
\<close>

definition not_completed :: "job_target list \<Rightarrow> job_target \<Rightarrow> bool" where
  "not_completed completedJobs potentialJob =
     (find (\<lambda>c. index c = index potentialJob) completedJobs = None)"

definition initialize ::
    "platform \<Rightarrow> string \<Rightarrow> bool \<Rightarrow> module_state world \<times> store
       \<Rightarrow> (error + job list) \<times> module_state world \<times> store" where
  "initialize pf indexNames ignoreCompleted cfg =
     (case cfg of (w, s) \<Rightarrow>
        (case clearBacklogJobs s of (cleared, s1) \<Rightarrow>
           (case prepareNewJobs pf (vars w) indexNames of
              Inl e \<Rightarrow> (Inl e, w, s1)
            | Inr potentialJobs \<Rightarrow>
                (case (if ignoreCompleted
                       then (Inr potentialJobs, snd (clearCompletedJobs s1))
                       else (case getCompletedJobs s1 of
                               Inl e \<Rightarrow> (Inl e, s1)
                             | Inr completed \<Rightarrow>
                                 (Inr (filter (not_completed (map JSON_parse completed)) potentialJobs), s1)))
                 of
                   (Inl e, s2) \<Rightarrow> (Inl e, w, s2)
                 | (Inr jobs, s2) \<Rightarrow>
                     (case addCountToJobs jobs w of
                        (Inl e, w1) \<Rightarrow> (Inl e, w1, s2)
                      | (Inr counted, w1) \<Rightarrow>
                          (case each_queueJob counted s2 of (r, s3) \<Rightarrow> (r, w1, s3)))))))"

text \<open>
  The older copy has the same steps; its check \<^verbatim>\<open>completed === null\<close> never holds,
  since its \<^verbatim>\<open>getCompletedJobs\<close> resolves to \<^verbatim>\<open>jobs || []\<close>.
\<close>

definition initialize_part000 ::
    "platform \<Rightarrow> string \<Rightarrow> bool \<Rightarrow> module_state_part000 world \<times> store
       \<Rightarrow> (error + job list) \<times> module_state_part000 world \<times> store" where
  "initialize_part000 pf indexNames ignoreCompleted cfg =
     (case cfg of (w, s) \<Rightarrow>
        (case clearBacklogJobs s of (cleared, s1) \<Rightarrow>
           (case prepareNewJobs_part000 pf (vars w) indexNames of
              Inl e \<Rightarrow> (Inl e, w, s1)
            | Inr potentialJobs \<Rightarrow>
                (case (if ignoreCompleted
                       then (Inr potentialJobs, snd (clearCompletedJobs s1))
                       else (case getCompletedJobs s1 of
                               Inl e \<Rightarrow> (Inl e, s1)
                             | Inr completed \<Rightarrow>
                                 (Inr (filter (not_completed (map JSON_parse completed)) potentialJobs), s1)))
                 of
                   (Inl e, s2) \<Rightarrow> (Inl e, w, s2)
                 | (Inr jobs, s2) \<Rightarrow>
                     (case addCountToJobs_part000 jobs w of
                        (Inl e, w1) \<Rightarrow> (Inl e, w1, s2)
                      | (Inr counted, w1) \<Rightarrow>
                          (case each_queueJob_part000 counted s2 of (r, s3) \<Rightarrow> (r, w1, s3)))))))"

text \<open>
  Whether the Completed Ledger of a store holds an entry whose job has the given index
  name, whatever the entry's sub-collection.
\<close>

definition index_completed :: "store \<Rightarrow> string \<Rightarrow> bool" where
  "index_completed s ix =
     list_ex (\<lambda>(cid, c). case createFromID cid (Some c) of Inl e \<Rightarrow> False | Inr cj \<Rightarrow> index cj = ix)
       (hgetall COMPLETED_KEY s)"

section \<open>Manager instances\<close>

text \<open>
  The constructor stores the source on the instance (\<^verbatim>\<open>self.source\<close>), assigns it and
  the store's client to the module's variables, and gives the instance the module's
  functions as its methods. A method called on an instance therefore reads the module's
  variables at the time of the call; the instance it is called on plays no part. A
  system is the module's variables together with the stores of the servers that clients
  are connected to.
\<close>

record manager =
  self_source :: source_client

record system =
  module :: module_state
  servers :: "nat \<Rightarrow> store"

definition Manager :: "source_client \<Rightarrow> nat \<Rightarrow> system \<Rightarrow> manager \<times> system" where
  "Manager sourceEs redisClient sys =
     (\<lparr>self_source = sourceEs\<rparr>,
      sys\<lparr>module := (module sys)\<lparr>source := Some sourceEs, redis := Some redisClient\<rparr>\<rparr>)"

text \<open>
  A command sent through \<^verbatim>\<open>redis\<close> while it is still \<^verbatim>\<open>null\<close> is a
  \<^verbatim>\<open>TypeError\<close>.
\<close>

definition on_store :: "(store \<Rightarrow> (error + 'r) \<times> store) \<Rightarrow> system \<Rightarrow> (error + 'r) \<times> system" where
  "on_store f sys =
     (case redis (module sys) of
        None \<Rightarrow> (Inl TypeError, sys)
      | Some client \<Rightarrow>
          (case f (servers sys client) of
             (r, s) \<Rightarrow> (r, sys\<lparr>servers := (servers sys)(client := s)\<rparr>)))"

definition Manager_fetchJob :: "manager \<Rightarrow> system \<Rightarrow> (error + job option) \<times> system" where
  "Manager_fetchJob self sys = on_store fetchJob sys"

definition Manager_queueJob :: "manager \<Rightarrow> job_arg \<Rightarrow> system \<Rightarrow> (error + nat option) \<times> system" where
  "Manager_queueJob self job sys =
     (case coerce_job job of
        Inl e \<Rightarrow> (Inl e, sys)
      | Inr j \<Rightarrow> on_store (queueJob job) sys)"

definition Manager_completeJob :: "manager \<Rightarrow> job_arg \<Rightarrow> system \<Rightarrow> (error + nat) \<times> system" where
  "Manager_completeJob self job sys =
     (case coerce_job job of
        Inl e \<Rightarrow> (Inl e, sys)
      | Inr j \<Rightarrow> on_store (completeJob job) sys)"

definition Manager_getBacklogCount :: "manager \<Rightarrow> system \<Rightarrow> (error + int) \<times> system" where
  "Manager_getBacklogCount self sys = on_store (\<lambda>s. (Inr (getBacklogCount s), s)) sys"

definition Manager_setIndexFilter ::
    "manager \<Rightarrow> platform \<Rightarrow> predicate jsval \<Rightarrow> system \<Rightarrow> (error + unit) \<times> system" where
  "Manager_setIndexFilter self pf filter_arg sys =
     (case setIndexFilter pf filter_arg (module sys) of
        Inl e \<Rightarrow> (Inl e, sys)
      | Inr m \<Rightarrow> (Inr (), sys\<lparr>module := m\<rparr>))"

definition Manager_setTypeFilter ::
    "manager \<Rightarrow> platform \<Rightarrow> predicate jsval \<Rightarrow> system \<Rightarrow> (error + unit) \<times> system" where
  "Manager_setTypeFilter self pf filter_arg sys =
     (case setTypeFilter pf filter_arg (module sys) of
        Inl e \<Rightarrow> (Inl e, sys)
      | Inr m \<Rightarrow> (Inr (), sys\<lparr>module := m\<rparr>))"

definition Manager_setIndexComparator ::
    "manager \<Rightarrow> platform \<Rightarrow> comparator jsval \<Rightarrow> system \<Rightarrow> (error + unit) \<times> system" where
  "Manager_setIndexComparator self pf comparator_arg sys =
     (case setIndexComparator pf comparator_arg (module sys) of
        Inl e \<Rightarrow> (Inl e, sys)
      | Inr m \<Rightarrow> (Inr (), sys\<lparr>module := m\<rparr>))"

definition Manager_filterIndicesAndTypes :: "manager \<Rightarrow> target list \<Rightarrow> system \<Rightarrow> selection list" where
  "Manager_filterIndicesAndTypes self allIndices sys = filterIndicesAndTypes (module sys) allIndices"

definition Manager_prepareNewJobs ::
    "manager \<Rightarrow> platform \<Rightarrow> string \<Rightarrow> system \<Rightarrow> error + job_target list" where
  "Manager_prepareNewJobs self pf indexNames sys = prepareNewJobs pf (module sys) indexNames"

section \<open>An example system\<close>

text \<open>
  The scenario of the specification: the source has the indices \<open>A\<close> with the types
  \<open>t1\<close>, \<open>t2\<close> and \<open>B\<close> with the type \<open>t1\<close>, holding 3, 7 and 5 documents; a count
  request for anything else is rejected. Sorting is by insertion, which keeps the order
  of elements that compare equal.
\<close>

definition example_source :: source_client where
  "example_source =
     \<lparr>indices_get = (\<lambda>names.
        Inr [(''A'', Target [] [(''t1'', Target [] [] []), (''t2'', Target [] [] [])] []),
             (''B'', Target [] [(''t1'', Target [] [] [])] [])]),
      count_docs = (\<lambda>ix ty.
        if ix = ''A'' \<and> ty = ''t1'' then Inr 3
        else if ix = ''A'' \<and> ty = ''t2'' then Inr 7
        else if ix = ''B'' \<and> ty = ''t1'' then Inr 5
        else Inl (SourceQueryError ''missing''))\<rparr>"

fun insert_by :: "('a \<Rightarrow> 'a \<Rightarrow> int) \<Rightarrow> 'a \<Rightarrow> 'a list \<Rightarrow> 'a list" where
  "insert_by cmp x [] = [x]"
| "insert_by cmp x (y # ys) = (if cmp x y \<le> 0 then x # y # ys else y # insert_by cmp x ys)"

definition example_platform :: platform where
  "example_platform =
     \<lparr>extname = (\<lambda>p. []), require_filter = (\<lambda>p. None), require_comparator = (\<lambda>p. None),
      RegExp = (\<lambda>p. None), Array_sort = (\<lambda>cmp xs. foldr (insert_by cmp) xs [])\<rparr>"

definition example_module :: module_state where
  "example_module =
     \<lparr>indexFilter = None, indexComparator = None, typeFilter = None,
      source = Some example_source, redis = Some 0\<rparr>"

definition example_module_part000 :: module_state_part000 where
  "example_module_part000 =
     \<lparr>indexFilter = None, indexComparator = None, typeFilter = None,
      source = Some example_source, totalCount = 0\<rparr>"

section \<open>Properties of the job identity\<close>

lemma keys_distinct [simp]:
  "BACKLOG_QUEUE_KEY \<noteq> BACKLOG_HSET_KEY" "BACKLOG_HSET_KEY \<noteq> BACKLOG_QUEUE_KEY"
  "BACKLOG_QUEUE_KEY \<noteq> COMPLETED_KEY" "COMPLETED_KEY \<noteq> BACKLOG_QUEUE_KEY"
  "BACKLOG_HSET_KEY \<noteq> COMPLETED_KEY" "COMPLETED_KEY \<noteq> BACKLOG_HSET_KEY"
  by (simp_all add: BACKLOG_QUEUE_KEY_def BACKLOG_HSET_KEY_def COMPLETED_KEY_def)

lemma takeWhile_sep: "SEPARATOR \<notin> set xs \<Longrightarrow> takeWhile (\<lambda>c. c \<noteq> SEPARATOR) (xs @ SEPARATOR # ys) = xs"
  by (induction xs) auto

lemma dropWhile_sep: "SEPARATOR \<notin> set xs \<Longrightarrow> dropWhile (\<lambda>c. c \<noteq> SEPARATOR) (xs @ SEPARATOR # ys) = SEPARATOR # ys"
  by (induction xs) auto

lemma createFromID_getID:
  "valid_job j \<Longrightarrow> createFromID (getID j) c = Inr (j\<lparr>count := (case c of None \<Rightarrow> 0 | Some n \<Rightarrow> n)\<rparr>)"
  by (cases c) (simp_all add: createFromID_def getID_def valid_job_def valid_name_def takeWhile_sep dropWhile_sep parseInt_def)

lemma dropWhile_sep_cases:
  "dropWhile (\<lambda>c. c \<noteq> SEPARATOR) i = [] \<or> (\<exists>rest. dropWhile (\<lambda>c. c \<noteq> SEPARATOR) i = SEPARATOR # rest)"
  by (induction i) auto

lemma createFromID_Inr:
  assumes "createFromID i c = Inr j"
  shows "getID j = i \<and> valid_job j \<and> count j = (case c of None \<Rightarrow> 0 | Some n \<Rightarrow> n)"
proof -
  from dropWhile_sep_cases[of i] show ?thesis
  proof
    assume "dropWhile (\<lambda>c. c \<noteq> SEPARATOR) i = []"
    then have "createFromID i c = Inl JobConstructionError"
      by (simp only: createFromID_def list.case)
    with assms show ?thesis by simp
  next
    assume "\<exists>rest. dropWhile (\<lambda>c. c \<noteq> SEPARATOR) i = SEPARATOR # rest"
    then obtain rest where d: "dropWhile (\<lambda>c. c \<noteq> SEPARATOR) i = SEPARATOR # rest" ..
    have tk: "takeWhile (\<lambda>c. c \<noteq> SEPARATOR) i @ dropWhile (\<lambda>c. c \<noteq> SEPARATOR) i = i"
      by (rule takeWhile_dropWhile_id)
    have "createFromID i c = new_Job (Plain \<lparr>index = takeWhile (\<lambda>c. c \<noteq> SEPARATOR) i, type = rest,
                           count = (case c of None \<Rightarrow> 0 | Some c \<Rightarrow> parseInt c)\<rparr>)"
      using d by (simp only: createFromID_def list.case)
    with assms have j: "j = \<lparr>index = takeWhile (\<lambda>c. c \<noteq> SEPARATOR) i, type = rest,
                           count = (case c of None \<Rightarrow> 0 | Some c \<Rightarrow> parseInt c)\<rparr>" and v: "valid_job j"
      by (auto split: if_splits)
    from j tk d have "getID j = i" by (simp add: getID_def)
    moreover from j have "count j = (case c of None \<Rightarrow> 0 | Some n \<Rightarrow> n)"
      by (cases c) (simp_all add: parseInt_def)
    ultimately show ?thesis using v by simp
  qed
qed

lemma getID_inj: "valid_job a \<Longrightarrow> valid_job b \<Longrightarrow> getID a = getID b \<Longrightarrow> index a = index b \<and> type a = type b"
  by (metis takeWhile_sep dropWhile_sep getID_def valid_job_def valid_name_def list.inject)

section \<open>The backlog invariant\<close>

lemma coerce_job_valid: "wellformed_arg a \<Longrightarrow> coerce_job a = Inr j \<Longrightarrow> valid_job j"
  by (cases a) (auto split: if_splits sum.splits)

lemma hkeys_hset:
  "hkeys key' (snd (hset key f v s)) =
     (if key' = key then (if f \<in> set (hkeys key s) then hkeys key s else hkeys key s @ [f]) else hkeys key' s)"
  by (simp add: hkeys_def hset_def update_keys)

lemma fst_hset: "fst (hset key f v s) = (if f \<in> set (hkeys key s) then 0 else 1)"
  by (simp add: hset_def hkeys_def)

lemma lists_hset [simp]: "lists (snd (hset key f v s)) = lists s"
  by (simp add: hset_def)

lemma hkeys_hdel:
  "hkeys key' (snd (hdel key f s)) = (if key' = key then removeAll f (hkeys key s) else hkeys key' s)"
  by (simp add: hkeys_def hdel_def delete_keys)

lemma lists_hdel [simp]: "lists (snd (hdel key f s)) = lists s"
  by (simp add: hdel_def)

lemma hkeys_rpush [simp]: "hkeys key' (snd (rpush key v s)) = hkeys key' s"
  by (simp add: hkeys_def rpush_def)

lemma lists_rpush: "lists (snd (rpush key v s)) = (lists s)(key := lists s key @ [v])"
  by (simp add: rpush_def)

lemma hkeys_lpop [simp]: "hkeys key' (snd (lpop key s)) = hkeys key' s"
  by (simp add: hkeys_def lpop_def split: list.splits)

lemma hkeys_del: "hkeys key' (snd (del key s)) = (if key' = key then [] else hkeys key' s)"
  by (simp add: hkeys_def del_def)

lemma lists_del: "lists (snd (del key s)) = (lists s)(key := [])"
  by (simp add: del_def)

lemma store_inv_empty: "store_inv empty_store"
  by (simp add: store_inv_def empty_store_def hkeys_def)

lemma queueJob_Inr:
  "coerce_job a = Inr j \<Longrightarrow>
   queueJob a s =
     (if getID j \<in> set (hkeys BACKLOG_HSET_KEY s)
      then (Inr None, snd (hset BACKLOG_HSET_KEY (getID j) (count j) s))
      else (Inr (Some (length (lists s BACKLOG_QUEUE_KEY) + 1)),
            snd (rpush BACKLOG_QUEUE_KEY (getID j) (snd (hset BACKLOG_HSET_KEY (getID j) (count j) s)))))"
  by (simp add: queueJob_def hset_def hkeys_def rpush_def)

lemma queueJob_Inl: "coerce_job a = Inl e \<Longrightarrow> queueJob a s = (Inl e, s)"
  by (simp add: queueJob_def)

lemma completeJob_Inr:
  "coerce_job a = Inr j \<Longrightarrow>
   completeJob a s =
     (Inr (if getID j \<in> set (hkeys COMPLETED_KEY s) then 0 else 1),
      snd (hset COMPLETED_KEY (getID j) (count j) s))"
  by (simp add: completeJob_def hset_def hkeys_def)

lemma store_inv_queueJob:
  assumes "store_inv s" "wellformed_arg a"
  shows "store_inv (snd (queueJob a s))"
proof (cases "coerce_job a")
  case (Inl e)
  then show ?thesis using assms by (simp add: queueJob_def)
next
  case (Inr j)
  then have "valid_id (getID j)"
    using assms coerce_job_valid valid_id_def by blast
  with assms(1) show ?thesis
    by (simp add: queueJob_Inr[OF Inr] store_inv_def hkeys_hset lists_rpush)
qed

lemma store_inv_completeJob:
  assumes "store_inv s" "wellformed_arg a"
  shows "store_inv (snd (completeJob a s))"
proof (cases "coerce_job a")
  case (Inl e)
  then show ?thesis using assms by (simp add: completeJob_def)
next
  case (Inr j)
  then have "valid_id (getID j)"
    using assms coerce_job_valid valid_id_def by blast
  with assms(1) show ?thesis
    by (simp add: completeJob_Inr[OF Inr] store_inv_def hkeys_hset)
qed

lemma store_inv_clear:
  "store_inv s \<Longrightarrow> store_inv (snd (clearBacklogJobs s))"
  "store_inv s \<Longrightarrow> store_inv (snd (clearCompletedJobs s))"
  by (simp_all add: clearBacklogJobs_def clearCompletedJobs_def store_inv_def hkeys_del lists_del)

lemma fetchJob_Nil:
  "lists s BACKLOG_QUEUE_KEY = [] \<Longrightarrow> fetchJob s = (Inr None, s)"
  by (simp add: fetchJob_def lpop_def)

lemma fetchJob_Cons:
  assumes "lists s BACKLOG_QUEUE_KEY = x # xs" "valid_job j" "getID j = x"
  shows "fetchJob s =
     (Inr (Some (j\<lparr>count := (case hget BACKLOG_HSET_KEY x s of None \<Rightarrow> 0 | Some n \<Rightarrow> n)\<rparr>)),
      snd (hdel BACKLOG_HSET_KEY x (snd (lpop BACKLOG_QUEUE_KEY s))))"
proof -
  have "createFromID x c = Inr (j\<lparr>count := (case c of None \<Rightarrow> 0 | Some n \<Rightarrow> n)\<rparr>)" for c
    using createFromID_getID[OF assms(2)] assms(3) by simp
  moreover have "getID (j\<lparr>count := n\<rparr>) = x" for n
    using assms(3) by (simp add: getID_def)
  moreover have "hget BACKLOG_HSET_KEY x (snd (lpop BACKLOG_QUEUE_KEY s)) = hget BACKLOG_HSET_KEY x s"
    by (simp add: hget_def lpop_def split: list.splits)
  ultimately show ?thesis using assms(1)
    by (simp add: fetchJob_def lpop_def)
qed

lemma lists_lpop_Cons:
  "lists s key = x # xs \<Longrightarrow> lists (snd (lpop key s)) = (lists s)(key := xs)"
  by (simp add: lpop_def)

lemma store_inv_fetchJob:
  assumes "store_inv s"
  shows "store_inv (snd (fetchJob s))"
proof (cases "lists s BACKLOG_QUEUE_KEY")
  case Nil
  then show ?thesis using assms by (simp add: fetchJob_Nil)
next
  case (Cons x xs)
  with assms have "valid_id x" by (auto simp: store_inv_def)
  then obtain j where j: "valid_job j" "getID j = x" by (auto simp: valid_id_def)
  from assms Cons have "x \<notin> set xs" "set xs = set (hkeys BACKLOG_HSET_KEY s) - {x}"
    by (auto simp: store_inv_def)
  with assms Cons show ?thesis
    by (simp add: fetchJob_Cons[OF Cons j] store_inv_def hkeys_hdel lists_lpop_Cons distinct_removeAll)
qed

lemma store_inv_perform:
  "store_inv s \<Longrightarrow> wellformed_call c \<Longrightarrow> store_inv (perform c s)"
  by (cases c) (simp_all add: store_inv_queueJob store_inv_completeJob store_inv_clear store_inv_fetchJob)

lemma store_inv_fold:
  "store_inv s \<Longrightarrow> \<forall>c \<in> set calls. wellformed_call c \<Longrightarrow> store_inv (fold perform calls s)"
  by (induction calls arbitrary: s) (simp_all add: store_inv_perform)

lemma store_inv_run:
  "list_all wellformed_call calls \<Longrightarrow> store_inv (run calls empty_store)"
  by (simp add: run_def store_inv_fold store_inv_empty list_all_iff)

lemma foldl_parseInt: "foldl (\<lambda>total c. total + parseInt c) a cs = a + sum_list cs"
  by (induction cs arbitrary: a) (simp_all add: parseInt_def)

lemma createAll_valid:
  "\<forall>i \<in> set (map fst h). valid_id i \<Longrightarrow>
   \<exists>js. createAll h = Inr js \<and> map getID js = map fst h \<and> map count js = map snd h"
proof (induction h)
  case Nil
  then show ?case by simp
next
  case (Cons p h)
  obtain i c where p: "p = (i, c)" by (cases p)
  with Cons.prems obtain j where j: "valid_job j" "getID j = i" by (auto simp: valid_id_def)
  from Cons obtain js where js: "createAll h = Inr js" "map getID js = map fst h" "map count js = map snd h"
    by auto
  have "createFromID i (Some c) = Inr (j\<lparr>count := c\<rparr>)"
    using createFromID_getID[OF j(1), of "Some c"] j(2) by simp
  moreover have "getID (j\<lparr>count := c\<rparr>) = i" using j(2) by (simp add: getID_def)
  ultimately show ?case using p js by simp
qed

lemma count_agrees:
  assumes "\<forall>i \<in> set (hkeys key s). valid_id i"
  shows "\<exists>jobs. createAll (hgetall key s) = Inr jobs \<and> map getID jobs = hkeys key s
      \<and> foldl (\<lambda>total c. total + parseInt c) 0 (hvals key s) = sum_list (map count jobs)"
proof -
  from assms have "\<forall>i \<in> set (map fst (hashes s key)). valid_id i" by (simp add: hkeys_def)
  from createAll_valid[OF this] obtain js where
    "createAll (hashes s key) = Inr js" "map getID js = map fst (hashes s key)" "map count js = map snd (hashes s key)"
    by blast
  then show ?thesis by (simp add: hgetall_def hvals_def hkeys_def foldl_parseInt)
qed

lemma count_list_distinct: "distinct xs \<Longrightarrow> x \<in> set xs \<Longrightarrow> count_list xs x = 1"
  by (induction xs) (auto simp: count_list_0_iff)

lemma update_fresh: "k \<notin> fst ` set al \<Longrightarrow> AList.update k v al = al @ [(k, v)]"
  by (induction al) auto

lemma delete_fresh_snoc: "k \<notin> fst ` set al \<Longrightarrow> AList.delete k (al @ [(k, v)]) = al"
  by (induction al) (auto simp: AList.delete_eq)


lemmas eval_defs = queueJob_def hset_def rpush_def fetchJob_def lpop_def hget_def hdel_def
  createFromID_def getID_def valid_job_def valid_name_def SEPARATOR_def empty_store_def hkeys_def
  BACKLOG_QUEUE_KEY_def BACKLOG_HSET_KEY_def COMPLETED_KEY_def parseInt_def completeJob_def
  getBacklogCount_def getBacklogJobs_def hvals_def hgetall_def run_def del_def
  clearBacklogJobs_def clearCompletedJobs_def getCompletedCount_def getCompletedJobs_def


section \<open>Claims about the backlog\<close>

text \<open>
  C2, as stated, fails: the queue is first-in first-out, so on a backlog that holds an
  older job \<open>K\<close> (and not \<open>J\<close>), \<^verbatim>\<open>queueJob(J)\<close> followed by \<^verbatim>\<open>fetchJob()\<close>
  returns \<open>K\<close>.
\<close>

theorem fetchJob_returns_oldest_job:
  "getID \<lparr>index = ''J'', type = ''t'', count = 3\<rparr>
      \<notin> set (lists (snd (queueJob (Plain \<lparr>index = ''K'', type = ''t'', count = 5\<rparr>) empty_store)) BACKLOG_QUEUE_KEY)
   \<and> getID \<lparr>index = ''J'', type = ''t'', count = 3\<rparr>
      \<notin> set (hkeys BACKLOG_HSET_KEY (snd (queueJob (Plain \<lparr>index = ''K'', type = ''t'', count = 5\<rparr>) empty_store)))
   \<and> fst (fetchJob (snd (queueJob (Plain \<lparr>index = ''J'', type = ''t'', count = 3\<rparr>)
             (snd (queueJob (Plain \<lparr>index = ''K'', type = ''t'', count = 5\<rparr>) empty_store)))))
       = Inr (Some \<lparr>index = ''K'', type = ''t'', count = 5\<rparr>)"
  by (simp add: eval_defs)


text \<open>
  C2, amended: for every job \<open>J\<close>, \<^verbatim>\<open>queueJob(J)\<close> on a backlog whose queue is empty
  and whose hash does not hold \<open>J\<close>'s id, followed at once by \<^verbatim>\<open>fetchJob()\<close>, returns
  \<open>J\<close> (same id, same count); afterwards neither the queue nor the hash holds \<open>J\<close>'s
  id, and \<^verbatim>\<open>getBacklogCount()\<close>, which included \<open>J\<close>'s count in between, is back at
  its value before the two calls.
\<close>

theorem queueJob_fetchJob_roundtrip:
  assumes "wellformed_arg a" and "coerce_job a = Inr J"
    and "lists s BACKLOG_QUEUE_KEY = []" and "getID J \<notin> set (hkeys BACKLOG_HSET_KEY s)"
  shows "fst (fetchJob (snd (queueJob a s))) = Inr (Some J)
     \<and> getID J \<notin> set (lists (snd (fetchJob (snd (queueJob a s)))) BACKLOG_QUEUE_KEY)
     \<and> getID J \<notin> set (hkeys BACKLOG_HSET_KEY (snd (fetchJob (snd (queueJob a s)))))
     \<and> getBacklogCount (snd (queueJob a s)) = getBacklogCount s + count J
     \<and> getBacklogCount (snd (fetchJob (snd (queueJob a s)))) = getBacklogCount s"
proof -
  define s1 where "s1 = snd (queueJob a s)"
  have vJ: "valid_job J" using assms(1,2) by (rule coerce_job_valid)
  have s1: "s1 = snd (rpush BACKLOG_QUEUE_KEY (getID J) (snd (hset BACKLOG_HSET_KEY (getID J) (count J) s)))"
    unfolding s1_def using assms(4) by (simp add: queueJob_Inr[OF assms(2)])
  have q1: "lists s1 BACKLOG_QUEUE_KEY = getID J # []"
    unfolding s1 using assms(3) by (simp add: lists_rpush)
  have h1: "hashes s1 BACKLOG_HSET_KEY = hashes s BACKLOG_HSET_KEY @ [(getID J, count J)]"
    unfolding s1 using assms(4) by (simp add: rpush_def hset_def hkeys_def update_fresh)
  have g: "hget BACKLOG_HSET_KEY (getID J) s1 = Some (count J)"
    unfolding s1 by (simp add: hget_def rpush_def hset_def update_conv')
  define s2 where "s2 = snd (fetchJob s1)"
  have f: "fetchJob s1 = (Inr (Some J), snd (hdel BACKLOG_HSET_KEY (getID J) (snd (lpop BACKLOG_QUEUE_KEY s1))))"
    using fetchJob_Cons[OF q1 vJ refl] g by simp
  have q2: "lists s2 BACKLOG_QUEUE_KEY = []"
    unfolding s2_def f using q1 by (simp add: lists_lpop_Cons)
  have h2: "hashes s2 BACKLOG_HSET_KEY = hashes s BACKLOG_HSET_KEY"
    unfolding s2_def f using h1 q1 assms(4) by (simp add: hdel_def lpop_def hkeys_def delete_fresh_snoc)
  have c1: "getBacklogCount s1 = getBacklogCount s + count J"
    by (simp add: getBacklogCount_def hvals_def h1 foldl_parseInt)
  have c2: "getBacklogCount s2 = getBacklogCount s"
    by (simp add: getBacklogCount_def hvals_def h2)
  have k2: "getID J \<notin> set (hkeys BACKLOG_HSET_KEY s2)"
    using assms(4) h2 by (simp add: hkeys_def)
  from f q2 k2 c1 c2 show ?thesis unfolding s2_def s1_def by simp
qed

theorem queueJob_fetchJob_roundtrip_witness:
  "wellformed_arg (Plain \<lparr>index = ''J'', type = ''t'', count = 3\<rparr>)
   \<and> coerce_job (Plain \<lparr>index = ''J'', type = ''t'', count = 3\<rparr>) = Inr \<lparr>index = ''J'', type = ''t'', count = 3\<rparr>
   \<and> lists empty_store BACKLOG_QUEUE_KEY = []
   \<and> getID \<lparr>index = ''J'', type = ''t'', count = 3\<rparr> \<notin> set (hkeys BACKLOG_HSET_KEY empty_store)
   \<and> fst (fetchJob (snd (queueJob (Plain \<lparr>index = ''J'', type = ''t'', count = 3\<rparr>) empty_store)))
       = Inr (Some \<lparr>index = ''J'', type = ''t'', count = 3\<rparr>)
   \<and> getBacklogCount (snd (queueJob (Plain \<lparr>index = ''J'', type = ''t'', count = 3\<rparr>) empty_store)) = 3
   \<and> getBacklogCount (snd (fetchJob (snd (queueJob (Plain \<lparr>index = ''J'', type = ''t'', count = 3\<rparr>) empty_store)))) = 0"
proof -
  have h1: "wellformed_arg (Plain \<lparr>index = ''J'', type = ''t'', count = 3\<rparr>)" by simp
  have h2: "coerce_job (Plain \<lparr>index = ''J'', type = ''t'', count = 3\<rparr>) = Inr \<lparr>index = ''J'', type = ''t'', count = 3\<rparr>"
    by (simp add: valid_job_def valid_name_def SEPARATOR_def)
  have h3: "lists empty_store BACKLOG_QUEUE_KEY = []" by (simp add: empty_store_def)
  have h4: "getID \<lparr>index = ''J'', type = ''t'', count = 3\<rparr> \<notin> set (hkeys BACKLOG_HSET_KEY empty_store)"
    by (simp add: empty_store_def hkeys_def)
  have h5: "getBacklogCount empty_store = 0"
    by (simp add: getBacklogCount_def hvals_def empty_store_def)
  from queueJob_fetchJob_roundtrip[OF h1 h2 h3 h4] h1 h2 h3 h4 h5 show ?thesis by simp
qed


text \<open>
  C3: after any sequence of calls, \<^verbatim>\<open>queueJob(J)\<close> twice in a row leaves one
  occurrence of \<open>J\<close>'s id in the backlog queue and one entry with \<open>J\<close>'s id in the
  backlog hash (and in \<^verbatim>\<open>getBacklogJobs()\<close>); the second call resolves without error,
  to nothing, which is the branch that logs the warning; the queue holds no id twice.
  The older copy's \<^verbatim>\<open>queueJob\<close> does the same on every argument that passes its
  guard \<^verbatim>\<open>!job\<close>, as every job object does; a falsy argument it refuses both
  times with \<^verbatim>\<open>'job must be provided'\<close>, leaving the store as it was.
\<close>

theorem queueJob_twice_dedup:
  assumes "list_all wellformed_call calls" and "wellformed_arg a" and "coerce_job a = Inr J"
  shows "fst (queueJob a (snd (queueJob a (run calls empty_store)))) = Inr None
     \<and> count_list (lists (snd (queueJob a (snd (queueJob a (run calls empty_store))))) BACKLOG_QUEUE_KEY) (getID J) = 1
     \<and> count_list (hkeys BACKLOG_HSET_KEY (snd (queueJob a (snd (queueJob a (run calls empty_store)))))) (getID J) = 1
     \<and> (\<exists>jobs. getBacklogJobs (snd (queueJob a (snd (queueJob a (run calls empty_store))))) = Inr jobs
            \<and> length (filter (\<lambda>j. getID j = getID J) jobs) = 1)
     \<and> distinct (lists (snd (queueJob a (snd (queueJob a (run calls empty_store))))) BACKLOG_QUEUE_KEY)
     \<and> queueJob_part000 a (snd (queueJob_part000 a (run calls empty_store)))
          = (if truthy a then queueJob a (snd (queueJob a (run calls empty_store)))
             else (Inl JobMustBeProvided, run calls empty_store))"
proof -
  define s where "s = run calls empty_store"
  define s1 where "s1 = snd (queueJob a s)"
  define s2 where "s2 = snd (queueJob a s1)"
  have inv: "store_inv s" unfolding s_def using assms(1) by (rule store_inv_run)
  then have inv1: "store_inv s1" unfolding s1_def using assms(2) by (rule store_inv_queueJob)
  then have inv2: "store_inv s2" unfolding s2_def using assms(2) by (rule store_inv_queueJob)
  have in1: "getID J \<in> set (hkeys BACKLOG_HSET_KEY s1)"
    unfolding s1_def by (simp add: queueJob_Inr[OF assms(3)] hkeys_hset)
  then have r: "fst (queueJob a s1) = Inr None"
    by (simp add: queueJob_Inr[OF assms(3)])
  have in2: "getID J \<in> set (hkeys BACKLOG_HSET_KEY s2)"
    unfolding s2_def using in1 by (simp add: queueJob_Inr[OF assms(3)] hkeys_hset)
  from inv2 have d: "distinct (lists s2 BACKLOG_QUEUE_KEY)" "distinct (hkeys BACKLOG_HSET_KEY s2)"
    and e: "set (lists s2 BACKLOG_QUEUE_KEY) = set (hkeys BACKLOG_HSET_KEY s2)"
    and v: "\<forall>i \<in> set (hkeys BACKLOG_HSET_KEY s2). valid_id i"
    by (simp_all add: store_inv_def)
  from d e in2 have c1: "count_list (lists s2 BACKLOG_QUEUE_KEY) (getID J) = 1"
    and c2: "count_list (hkeys BACKLOG_HSET_KEY s2) (getID J) = 1"
    by (simp_all add: count_list_distinct)
  from count_agrees[OF v] obtain jobs where jobs: "getBacklogJobs s2 = Inr jobs" "map getID jobs = hkeys BACKLOG_HSET_KEY s2"
    unfolding getBacklogJobs_def by blast
  have "length (filter (\<lambda>j. getID j = getID J) jobs) = count_list (map getID jobs) (getID J)"
    by (induction jobs) simp_all
  with jobs c2 have c3: "\<exists>jobs. getBacklogJobs s2 = Inr jobs \<and> length (filter (\<lambda>j. getID j = getID J) jobs) = 1"
    by simp
  have p: "queueJob_part000 a t = (if truthy a then queueJob a t else (Inl JobMustBeProvided, t))" for t
    by (simp add: queueJob_part000_def queueJob_def)
  have "queueJob_part000 a (snd (queueJob_part000 a s))
          = (if truthy a then queueJob a s1 else (Inl JobMustBeProvided, s))"
    unfolding s1_def by (simp add: p)
  with r c1 c2 c3 d(1) show ?thesis
    unfolding s2_def s1_def s_def by simp
qed


theorem queueJob_twice_dedup_witness:
  "list_all wellformed_call [QueueJob (Plain \<lparr>index = ''A'', type = ''t1'', count = 3\<rparr>), FetchJob,
                 QueueJob (Plain \<lparr>index = ''B'', type = ''t1'', count = 5\<rparr>)]
   \<and> wellformed_arg (Plain \<lparr>index = ''A'', type = ''t2'', count = 7\<rparr>)
   \<and> coerce_job (Plain \<lparr>index = ''A'', type = ''t2'', count = 7\<rparr>)
        = Inr \<lparr>index = ''A'', type = ''t2'', count = 7\<rparr>
   \<and> fst (queueJob (Plain \<lparr>index = ''A'', type = ''t2'', count = 7\<rparr>)
          (snd (queueJob (Plain \<lparr>index = ''A'', type = ''t2'', count = 7\<rparr>)
             (run [QueueJob (Plain \<lparr>index = ''A'', type = ''t1'', count = 3\<rparr>), FetchJob,
                   QueueJob (Plain \<lparr>index = ''B'', type = ''t1'', count = 5\<rparr>)] empty_store)))) = Inr None
   \<and> count_list (lists (snd (queueJob (Plain \<lparr>index = ''A'', type = ''t2'', count = 7\<rparr>)
          (snd (queueJob (Plain \<lparr>index = ''A'', type = ''t2'', count = 7\<rparr>)
             (run [QueueJob (Plain \<lparr>index = ''A'', type = ''t1'', count = 3\<rparr>), FetchJob,
                   QueueJob (Plain \<lparr>index = ''B'', type = ''t1'', count = 5\<rparr>)] empty_store))))) BACKLOG_QUEUE_KEY)
          (getID \<lparr>index = ''A'', type = ''t2'', count = 7\<rparr>) = 1
   \<and> lists (snd (queueJob (Plain \<lparr>index = ''A'', type = ''t2'', count = 7\<rparr>)
          (snd (queueJob (Plain \<lparr>index = ''A'', type = ''t2'', count = 7\<rparr>)
             (run [QueueJob (Plain \<lparr>index = ''A'', type = ''t1'', count = 3\<rparr>), FetchJob,
                   QueueJob (Plain \<lparr>index = ''B'', type = ''t1'', count = 5\<rparr>)] empty_store))))) BACKLOG_QUEUE_KEY
        = [''B:t1'', ''A:t2'']
   \<and> truthy (Plain \<lparr>index = ''A'', type = ''t2'', count = 7\<rparr>)
   \<and> queueJob_part000 (Plain \<lparr>index = ''A'', type = ''t2'', count = 7\<rparr>)
          (snd (queueJob_part000 (Plain \<lparr>index = ''A'', type = ''t2'', count = 7\<rparr>)
             (run [QueueJob (Plain \<lparr>index = ''A'', type = ''t1'', count = 3\<rparr>), FetchJob,
                   QueueJob (Plain \<lparr>index = ''B'', type = ''t1'', count = 5\<rparr>)] empty_store)))
        = queueJob (Plain \<lparr>index = ''A'', type = ''t2'', count = 7\<rparr>)
          (snd (queueJob (Plain \<lparr>index = ''A'', type = ''t2'', count = 7\<rparr>)
             (run [QueueJob (Plain \<lparr>index = ''A'', type = ''t1'', count = 3\<rparr>), FetchJob,
                   QueueJob (Plain \<lparr>index = ''B'', type = ''t1'', count = 5\<rparr>)] empty_store)))"
proof -
  have h1: "list_all wellformed_call [QueueJob (Plain \<lparr>index = ''A'', type = ''t1'', count = 3\<rparr>), FetchJob,
                 QueueJob (Plain \<lparr>index = ''B'', type = ''t1'', count = 5\<rparr>)]"
    by simp
  have h2: "wellformed_arg (Plain \<lparr>index = ''A'', type = ''t2'', count = 7\<rparr>)" by simp
  have h3: "coerce_job (Plain \<lparr>index = ''A'', type = ''t2'', count = 7\<rparr>)
        = Inr \<lparr>index = ''A'', type = ''t2'', count = 7\<rparr>"
    by (simp add: valid_job_def valid_name_def SEPARATOR_def)
  have e: "lists (snd (queueJob (Plain \<lparr>index = ''A'', type = ''t2'', count = 7\<rparr>)
          (snd (queueJob (Plain \<lparr>index = ''A'', type = ''t2'', count = 7\<rparr>)
             (run [QueueJob (Plain \<lparr>index = ''A'', type = ''t1'', count = 3\<rparr>), FetchJob,
                   QueueJob (Plain \<lparr>index = ''B'', type = ''t1'', count = 5\<rparr>)] empty_store))))) BACKLOG_QUEUE_KEY
        = [''B:t1'', ''A:t2'']"
    by (simp add: eval_defs)
  have h4: "truthy (Plain \<lparr>index = ''A'', type = ''t2'', count = 7\<rparr>)" by simp
  from queueJob_twice_dedup[OF h1 h2 h3, unfolded if_P[OF h4]] h1 h2 h3 h4 e show ?thesis by blast
qed

text \<open>
  C7: after any sequence of \<^verbatim>\<open>queueJob\<close>, \<^verbatim>\<open>fetchJob\<close>, \<^verbatim>\<open>completeJob\<close> and
  clear calls on an empty store, \<^verbatim>\<open>getBacklogJobs()\<close> resolves and
  \<^verbatim>\<open>getBacklogCount()\<close> is the sum of its jobs' counts, likewise
  \<^verbatim>\<open>getCompletedCount()\<close> and \<^verbatim>\<open>getCompletedJobs()\<close>; on an empty or absent hash
  either count is 0.
\<close>

theorem count_agrees_with_enumeration:
  assumes "list_all wellformed_call calls"
  shows "(\<exists>jobs. getBacklogJobs (run calls empty_store) = Inr jobs
            \<and> getBacklogCount (run calls empty_store) = sum_list (map count jobs))
       \<and> (\<exists>jobs. getCompletedJobs (run calls empty_store) = Inr jobs
            \<and> getCompletedCount (run calls empty_store) = sum_list (map count jobs))
       \<and> (hgetall BACKLOG_HSET_KEY s = [] \<longrightarrow> getBacklogCount s = 0)
       \<and> (hgetall COMPLETED_KEY s = [] \<longrightarrow> getCompletedCount s = 0)"
proof -
  have inv: "store_inv (run calls empty_store)" using assms by (rule store_inv_run)
  then have b: "\<forall>i \<in> set (hkeys BACKLOG_HSET_KEY (run calls empty_store)). valid_id i"
    and c: "\<forall>i \<in> set (hkeys COMPLETED_KEY (run calls empty_store)). valid_id i"
    by (simp_all add: store_inv_def)
  from count_agrees[OF b] have 1: "\<exists>jobs. getBacklogJobs (run calls empty_store) = Inr jobs
            \<and> getBacklogCount (run calls empty_store) = sum_list (map count jobs)"
    unfolding getBacklogJobs_def getBacklogCount_def by blast
  from count_agrees[OF c] have 2: "\<exists>jobs. getCompletedJobs (run calls empty_store) = Inr jobs
            \<and> getCompletedCount (run calls empty_store) = sum_list (map count jobs)"
    unfolding getCompletedJobs_def getCompletedCount_def by blast
  have 3: "hgetall BACKLOG_HSET_KEY s = [] \<longrightarrow> getBacklogCount s = 0"
    by (simp add: hgetall_def getBacklogCount_def hvals_def)
  have 4: "hgetall COMPLETED_KEY s = [] \<longrightarrow> getCompletedCount s = 0"
    by (simp add: hgetall_def getCompletedCount_def hvals_def)
  from 1 2 3 4 show ?thesis by blast
qed


theorem count_agrees_with_enumeration_witness:
  "list_all wellformed_call [QueueJob (Plain \<lparr>index = ''A'', type = ''t1'', count = 3\<rparr>),
               QueueJob (Plain \<lparr>index = ''B'', type = ''t1'', count = 5\<rparr>),
               FetchJob,
               CompleteJob (Instance \<lparr>index = ''A'', type = ''t1'', count = 3\<rparr>)]
   \<and> getBacklogJobs (run [QueueJob (Plain \<lparr>index = ''A'', type = ''t1'', count = 3\<rparr>),
               QueueJob (Plain \<lparr>index = ''B'', type = ''t1'', count = 5\<rparr>),
               FetchJob,
               CompleteJob (Instance \<lparr>index = ''A'', type = ''t1'', count = 3\<rparr>)] empty_store)
       = Inr [\<lparr>index = ''B'', type = ''t1'', count = 5\<rparr>]
   \<and> getBacklogCount (run [QueueJob (Plain \<lparr>index = ''A'', type = ''t1'', count = 3\<rparr>),
               QueueJob (Plain \<lparr>index = ''B'', type = ''t1'', count = 5\<rparr>),
               FetchJob,
               CompleteJob (Instance \<lparr>index = ''A'', type = ''t1'', count = 3\<rparr>)] empty_store) = 5
   \<and> getCompletedCount (run [QueueJob (Plain \<lparr>index = ''A'', type = ''t1'', count = 3\<rparr>),
               QueueJob (Plain \<lparr>index = ''B'', type = ''t1'', count = 5\<rparr>),
               FetchJob,
               CompleteJob (Instance \<lparr>index = ''A'', type = ''t1'', count = 3\<rparr>)] empty_store) = 3"
proof -
  have h: "list_all wellformed_call [QueueJob (Plain \<lparr>index = ''A'', type = ''t1'', count = 3\<rparr>),
               QueueJob (Plain \<lparr>index = ''B'', type = ''t1'', count = 5\<rparr>),
               FetchJob,
               CompleteJob (Instance \<lparr>index = ''A'', type = ''t1'', count = 3\<rparr>)]"
    by (simp add: valid_job_def valid_name_def SEPARATOR_def)
  have e: "getBacklogJobs (run [QueueJob (Plain \<lparr>index = ''A'', type = ''t1'', count = 3\<rparr>),
               QueueJob (Plain \<lparr>index = ''B'', type = ''t1'', count = 5\<rparr>),
               FetchJob,
               CompleteJob (Instance \<lparr>index = ''A'', type = ''t1'', count = 3\<rparr>)] empty_store)
       = Inr [\<lparr>index = ''B'', type = ''t1'', count = 5\<rparr>]"
    by (simp add: eval_defs)
  have e2: "getCompletedJobs (run [QueueJob (Plain \<lparr>index = ''A'', type = ''t1'', count = 3\<rparr>),
               QueueJob (Plain \<lparr>index = ''B'', type = ''t1'', count = 5\<rparr>),
               FetchJob,
               CompleteJob (Instance \<lparr>index = ''A'', type = ''t1'', count = 3\<rparr>)] empty_store)
       = Inr [\<lparr>index = ''A'', type = ''t1'', count = 3\<rparr>]"
    by (simp add: eval_defs)
  from count_agrees_with_enumeration[OF h, of empty_store] e e2 h show ?thesis by auto
qed

section \<open>The two copies of the backlog operations\<close>




section \<open>Concurrent callers: exactly-once dequeue\<close>

lemma advance_alone:
  "(case advance Called s of (c1, s1) \<Rightarrow> case advance c1 s1 of (c2, s2) \<Rightarrow>
      case advance c2 s2 of (c3, s3) \<Rightarrow> (c3, s3)) = (Returned (fst (fetchJob s)), snd (fetchJob s))"
  by (auto simp: fetchJob_def lpop_def hget_def split: list.splits sum.splits prod.splits)

lemma map_filter_update_same:
  "i < length cs \<Longrightarrow> f (cs ! i) = f c \<Longrightarrow> List.map_filter f (cs[i := c]) = List.map_filter f cs"
proof (induction cs arbitrary: i)
  case Nil
  then show ?case by simp
next
  case (Cons a cs)
  then show ?case by (cases i) (auto simp: List.map_filter_simps split: option.splits)
qed

lemma map_filter_update_new:
  "i < length cs \<Longrightarrow> f (cs ! i) = None \<Longrightarrow> f c = Some a \<Longrightarrow>
     set (List.map_filter f (cs[i := c])) = insert a (set (List.map_filter f cs))
   \<and> (distinct (List.map_filter f (cs[i := c])) \<longleftrightarrow> a \<notin> set (List.map_filter f cs) \<and> distinct (List.map_filter f cs))"
proof (induction cs arbitrary: i)
  case Nil
  then show ?case by simp
next
  case (Cons b cs)
  show ?case
  proof (cases i)
    case 0
    with Cons.prems show ?thesis by (simp add: List.map_filter_simps)
  next
    case (Suc k)
    with Cons.prems have "k < length cs" "f (cs ! k) = None" by simp_all
    from Cons.IH[OF this Cons.prems(3)] Suc show ?thesis
      by (cases "f b") (auto simp: List.map_filter_simps)
  qed
qed

lemma list_ex_update:
  "list_ex P (cs[i := c]) \<Longrightarrow> P c \<or> list_ex P cs"
  using set_update_subset_insert[of cs i c] by (auto simp: list_ex_iff)

declare step_at.simps [simp del]

lemma set_map_filter: "set (List.map_filter f xs) = {a. \<exists>x \<in> set xs. f x = Some a}"
  by (induction xs) (auto simp: List.map_filter_simps split: option.splits)

lemma held_in_map_filter:
  "i < length cs \<Longrightarrow> held (cs ! i) = Some a \<Longrightarrow> a \<in> set (List.map_filter held cs)"
  by (force simp: set_map_filter)

lemma calls_inv_step:
  assumes inv: "calls_inv ids (cs, s)" and valid: "\<forall>a \<in> set ids. valid_id a"
  shows "calls_inv ids (step_at i (cs, s))"
proof (cases "i < length cs")
  case False
  with inv show ?thesis by (simp add: step_at.simps)
next
  case i: True
  from inv have d: "distinct (lists s BACKLOG_QUEUE_KEY @ List.map_filter held cs)"
    and e: "set (lists s BACKLOG_QUEUE_KEY @ List.map_filter held cs) = set ids"
    and n: "list_ex no_job cs \<longrightarrow> lists s BACKLOG_QUEUE_KEY = []"
    and f: "\<not> list_ex failed cs"
    by (simp_all add: calls_inv_def)
  show ?thesis
  proof (cases "cs ! i")
    case Called
    show ?thesis
    proof (cases "lists s BACKLOG_QUEUE_KEY")
      case Nil
      with Called i have st: "step_at i (cs, s) = (cs[i := Returned (Inr None)], s)"
        by (simp add: lpop_def step_at.simps)
      have "List.map_filter held (cs[i := Returned (Inr None)]) = List.map_filter held cs"
        using i Called by (simp add: map_filter_update_same)
      moreover have "\<not> list_ex failed (cs[i := Returned (Inr None)])"
        using f list_ex_update[of failed cs i "Returned (Inr None)"] by auto
      ultimately show ?thesis using d e Nil by (simp add: st calls_inv_def)
    next
      case (Cons x xs)
      with Called i have st: "step_at i (cs, s) = (cs[i := Popped x], s\<lparr>lists := (lists s)(BACKLOG_QUEUE_KEY := xs)\<rparr>)"
        by (simp add: lpop_def step_at.simps)
      from map_filter_update_new[of i cs held "Popped x" x] i Called
      have m: "set (List.map_filter held (cs[i := Popped x])) = insert x (set (List.map_filter held cs))"
        "distinct (List.map_filter held (cs[i := Popped x])) \<longleftrightarrow> x \<notin> set (List.map_filter held cs) \<and> distinct (List.map_filter held cs)"
        by simp_all
      have nf: "\<not> list_ex failed (cs[i := Popped x])"
        using f list_ex_update[of failed cs i "Popped x"] by auto
      have nn: "\<not> list_ex no_job (cs[i := Popped x])"
        using n Cons list_ex_update[of no_job cs i "Popped x"] by auto
      from d e Cons m nf nn show ?thesis
        by (auto simp: st calls_inv_def)
    qed
  next
    case (Popped a)
    with i have "a \<in> set (List.map_filter held cs)" by (simp add: held_in_map_filter)
    with e valid have "valid_id a" by auto
    then obtain j where j: "valid_job j" "getID j = a" by (auto simp: valid_id_def)
    define j' where "j' = j\<lparr>count := (case hget BACKLOG_HSET_KEY a s of None \<Rightarrow> 0 | Some n \<Rightarrow> n)\<rparr>"
    have c: "createFromID a (hget BACKLOG_HSET_KEY a s) = Inr j'"
      unfolding j'_def using createFromID_getID[OF j(1)] j(2) by simp
    have g: "getID j' = a" unfolding j'_def using j(2) by (simp add: getID_def)
    from Popped i c have st: "step_at i (cs, s) = (cs[i := Created j'], s)" by (simp add: step_at.simps)
    have "List.map_filter held (cs[i := Created j']) = List.map_filter held cs"
      using i Popped g by (simp add: map_filter_update_same)
    moreover have "\<not> list_ex failed (cs[i := Created j'])"
      using f list_ex_update[of failed cs i "Created j'"] by auto
    moreover have "list_ex no_job (cs[i := Created j']) \<longrightarrow> list_ex no_job cs"
      using list_ex_update[of no_job cs i "Created j'"] by auto
    ultimately show ?thesis using d e n by (auto simp: st calls_inv_def)
  next
    case (Created j)
    with i have st: "step_at i (cs, s) = (cs[i := Returned (Inr (Some j))], snd (hdel BACKLOG_HSET_KEY (getID j) s))"
      by (simp add: step_at.simps)
    have "List.map_filter held (cs[i := Returned (Inr (Some j))]) = List.map_filter held cs"
      using i Created by (simp add: map_filter_update_same)
    moreover have "\<not> list_ex failed (cs[i := Returned (Inr (Some j))])"
      using f list_ex_update[of failed cs i "Returned (Inr (Some j))"] by auto
    moreover have "list_ex no_job (cs[i := Returned (Inr (Some j))]) \<longrightarrow> list_ex no_job cs"
      using list_ex_update[of no_job cs i "Returned (Inr (Some j))"] by auto
    ultimately show ?thesis using d e n by (auto simp: st calls_inv_def)
  next
    case (Returned r)
    with i have "step_at i (cs, s) = (cs, s)" by (simp add: step_at.simps list_update_same_conv)
    with inv show ?thesis by simp
  qed
qed

lemma calls_inv_fold:
  "calls_inv ids cfg \<Longrightarrow> \<forall>a \<in> set ids. valid_id a \<Longrightarrow> calls_inv ids (fold step_at sched cfg)"
proof (induction sched arbitrary: cfg)
  case Nil
  then show ?case by simp
next
  case (Cons i sched)
  obtain cs s where cfg: "cfg = (cs, s)" by (cases cfg)
  from Cons.prems have "calls_inv ids (step_at i cfg)"
    unfolding cfg by (rule calls_inv_step)
  with Cons show ?case by simp
qed

lemma length_step_at: "length (fst (step_at i cfg)) = length (fst cfg)"
  by (cases cfg) (simp add: step_at.simps split: prod.splits)

lemma length_fold_step_at: "length (fst (fold step_at sched cfg)) = length (fst cfg)"
  by (induction sched arbitrary: cfg) (simp_all add: length_step_at)

lemma calls_inv_init:
  "distinct ids \<Longrightarrow> lists s BACKLOG_QUEUE_KEY = ids \<Longrightarrow> calls_inv ids (replicate n Called, s)"
  by (induction n) (auto simp: calls_inv_def List.map_filter_simps list_ex_iff set_map_filter)

lemma turns_left_advance: "turns_left (fst (advance c s)) \<le> turns_left c - 1"
  by (cases c) (auto split: prod.splits option.splits sum.splits)

lemma turns_left_step_at:
  assumes "j < length cs"
  shows "turns_left (fst (step_at i (cs, s)) ! j) \<le> turns_left (cs ! j) - (if i = j then 1 else 0)"
proof (cases "i < length cs")
  case False
  then show ?thesis using assms by (simp add: step_at.simps)
next
  case True
  obtain c s1 where a: "advance (cs ! i) s = (c, s1)" by (cases "advance (cs ! i) s")
  with True have st: "step_at i (cs, s) = (cs[i := c], s1)" by (simp add: step_at.simps)
  from turns_left_advance[of "cs ! i" s] a have "turns_left c \<le> turns_left (cs ! i) - 1" by simp
  with assms show ?thesis by (auto simp: st nth_list_update)
qed

lemma turns_left_fold:
  "j < length cs \<Longrightarrow>
   turns_left (fst (fold step_at sched (cs, s)) ! j) \<le> turns_left (cs ! j) - count_list sched j"
proof (induction sched arbitrary: cs s)
  case Nil
  then show ?case by simp
next
  case (Cons i sched)
  obtain cs1 s1 where st: "step_at i (cs, s) = (cs1, s1)" by (cases "step_at i (cs, s)")
  have len: "length cs1 = length cs" using length_step_at[of i "(cs, s)"] st by simp
  with Cons.prems have j: "j < length cs1" by simp
  from turns_left_step_at[OF Cons.prems, of i s] st
  have 1: "turns_left (cs1 ! j) \<le> turns_left (cs ! j) - (if i = j then 1 else 0)" by simp
  from Cons.IH[OF j, of s1]
  have 2: "turns_left (fst (fold step_at sched (cs1, s1)) ! j) \<le> turns_left (cs1 ! j) - count_list sched j" .
  have "fold step_at (i # sched) (cs, s) = fold step_at sched (cs1, s1)" by (simp add: st)
  with 1 2 show ?case by (cases "i = j") simp_all
qed

lemma settled_iff_turns: "settled c \<longleftrightarrow> turns_left c = 0"
  by (cases c) simp_all

lemma turns_left_le3: "turns_left c \<le> 3"
  by (cases c) simp_all

lemma all_settle:
  assumes "\<forall>i<n. 3 \<le> count_list sched i"
  shows "list_all settled (fst (interleave sched (replicate n Called, s)))"
proof -
  let ?cs = "fst (fold step_at sched (replicate n Called, s))"
  have len: "length ?cs = n" by (simp add: length_fold_step_at)
  have "settled (?cs ! j)" if "j < n" for j
  proof -
    from that have "turns_left (?cs ! j) \<le> turns_left (replicate n Called ! j) - count_list sched j"
      by (intro turns_left_fold) simp
    with that assms show ?thesis by (simp add: settled_iff_turns)
  qed
  with len show ?thesis by (simp add: interleave_def list_all_length)
qed

lemma held_settled:
  "list_all settled cs \<Longrightarrow> List.map_filter held cs = map getID (returned_jobs cs)"
proof (induction cs)
  case Nil
  then show ?case by (simp add: returned_jobs_def List.map_filter_simps)
next
  case (Cons c cs)
  then obtain r where "c = Returned r" by (cases c) simp_all
  with Cons show ?case
    by (cases r; cases "projr r") (auto simp: returned_jobs_def List.map_filter_simps)
qed

lemma settled_partition:
  "list_all settled cs \<Longrightarrow> \<not> list_ex failed cs \<Longrightarrow>
   length (filter no_job cs) + length (returned_jobs cs) = length cs"
proof (induction cs)
  case Nil
  then show ?case by (simp add: returned_jobs_def List.map_filter_simps)
next
  case (Cons c cs)
  then obtain r where c: "c = Returned r" by (cases c) simp_all
  with Cons.prems obtain opt where "r = Inr opt" by (cases r) simp_all
  with c Cons show ?case
    by (cases opt) (auto simp: returned_jobs_def List.map_filter_simps)
qed

lemma valid_ids_of_jobs: "list_all valid_job jobs \<Longrightarrow> \<forall>a \<in> set (map getID jobs). valid_id a"
  by (auto simp: list_all_iff valid_id_def)

text \<open>
  C1: the backlog queues \<open>M\<close> unique job ids and \<open>N > M\<close> callers run \<^verbatim>\<open>fetchJob\<close>
  concurrently, their store commands interleaved in any order (any schedule). Once all
  calls have settled, exactly \<open>M\<close> of them have returned a job, the other \<open>N - M\<close>
  have returned "no job available", and the returned jobs' ids are the \<open>M\<close> queued
  ids, no id given to two callers. Every schedule that gives each caller its three
  turns settles all calls.
\<close>

theorem fetchJob_exactly_once:
  assumes q: "lists s0 BACKLOG_QUEUE_KEY = map getID jobs"
    and v: "list_all valid_job jobs"
    and d: "distinct (map getID jobs)"
    and n: "length jobs < n"
  shows "(list_all settled (fst (interleave sched (replicate n Called, s0))) \<longrightarrow>
            length (returned_jobs (fst (interleave sched (replicate n Called, s0)))) = length jobs
          \<and> length (filter no_job (fst (interleave sched (replicate n Called, s0)))) = n - length jobs
          \<and> distinct (map getID (returned_jobs (fst (interleave sched (replicate n Called, s0)))))
          \<and> set (map getID (returned_jobs (fst (interleave sched (replicate n Called, s0))))) = set (map getID jobs))
       \<and> ((\<forall>i<n. 3 \<le> count_list sched i) \<longrightarrow>
            list_all settled (fst (interleave sched (replicate n Called, s0))))"
proof -
  obtain cs s where fin: "interleave sched (replicate n Called, s0) = (cs, s)"
    by (cases "interleave sched (replicate n Called, s0)")
  have len: "length cs = n"
    using length_fold_step_at[of sched "(replicate n Called, s0)"] fin by (simp add: interleave_def)
  have "calls_inv (map getID jobs) (replicate n Called, s0)"
    using d q by (rule calls_inv_init)
  then have inv: "calls_inv (map getID jobs) (cs, s)"
    using calls_inv_fold[OF _ valid_ids_of_jobs[OF v], of "(replicate n Called, s0)" sched] fin
    by (simp add: interleave_def)
  have main: "length (returned_jobs cs) = length jobs
          \<and> length (filter no_job cs) = n - length jobs
          \<and> distinct (map getID (returned_jobs cs))
          \<and> set (map getID (returned_jobs cs)) = set (map getID jobs)" if st: "list_all settled cs"
  proof -
    from inv have di: "distinct (lists s BACKLOG_QUEUE_KEY @ map getID (returned_jobs cs))"
      and se: "set (lists s BACKLOG_QUEUE_KEY @ map getID (returned_jobs cs)) = set (map getID jobs)"
      and nj: "list_ex no_job cs \<longrightarrow> lists s BACKLOG_QUEUE_KEY = []"
      and nf: "\<not> list_ex failed cs"
      by (simp_all add: calls_inv_def held_settled[OF st])
    from settled_partition[OF st nf] len
    have part: "length (filter no_job cs) + length (returned_jobs cs) = n" by simp
    from di se d have "length (lists s BACKLOG_QUEUE_KEY @ map getID (returned_jobs cs)) = length (map getID jobs)"
      by (metis distinct_card)
    then have le: "length (lists s BACKLOG_QUEUE_KEY) + length (returned_jobs cs) = length jobs" by simp
    with part n have "filter no_job cs \<noteq> []" by auto
    then have "list_ex no_job cs" by (auto simp: list_ex_iff filter_empty_conv)
    with nj have e: "lists s BACKLOG_QUEUE_KEY = []" by simp
    with le part di se show ?thesis by auto
  qed
  have "list_all settled cs" if "\<forall>i<n. 3 \<le> count_list sched i"
    using all_settle[OF that, of s0] fin by simp
  with main show ?thesis by (simp add: fin)
qed

theorem fetchJob_exactly_once_witness:
  "lists (snd (queueJob (Plain \<lparr>index = ''B'', type = ''t1'', count = 5\<rparr>)
           (snd (queueJob (Plain \<lparr>index = ''A'', type = ''t1'', count = 3\<rparr>) empty_store)))) BACKLOG_QUEUE_KEY
     = map getID [\<lparr>index = ''A'', type = ''t1'', count = 3\<rparr>, \<lparr>index = ''B'', type = ''t1'', count = 5\<rparr>]
   \<and> list_all valid_job [\<lparr>index = ''A'', type = ''t1'', count = 3\<rparr>, \<lparr>index = ''B'', type = ''t1'', count = 5\<rparr>]
   \<and> distinct (map getID [\<lparr>index = ''A'', type = ''t1'', count = 3\<rparr>, \<lparr>index = ''B'', type = ''t1'', count = 5\<rparr>])
   \<and> length [\<lparr>index = ''A'', type = ''t1'', count = 3\<rparr>, \<lparr>index = ''B'', type = ''t1'', count = 5\<rparr>] < (3::nat)
   \<and> fst (interleave [2, 0, 0, 1, 2, 0, 2]
          (replicate 3 Called,
           snd (queueJob (Plain \<lparr>index = ''B'', type = ''t1'', count = 5\<rparr>)
             (snd (queueJob (Plain \<lparr>index = ''A'', type = ''t1'', count = 3\<rparr>) empty_store)))))
       = [Returned (Inr (Some \<lparr>index = ''B'', type = ''t1'', count = 5\<rparr>)),
          Returned (Inr None),
          Returned (Inr (Some \<lparr>index = ''A'', type = ''t1'', count = 3\<rparr>))]
   \<and> length (returned_jobs (fst (interleave [2, 0, 0, 1, 2, 0, 2]
          (replicate 3 Called,
           snd (queueJob (Plain \<lparr>index = ''B'', type = ''t1'', count = 5\<rparr>)
             (snd (queueJob (Plain \<lparr>index = ''A'', type = ''t1'', count = 3\<rparr>) empty_store))))))) = 2
   \<and> length (filter no_job (fst (interleave [2, 0, 0, 1, 2, 0, 2]
          (replicate 3 Called,
           snd (queueJob (Plain \<lparr>index = ''B'', type = ''t1'', count = 5\<rparr>)
             (snd (queueJob (Plain \<lparr>index = ''A'', type = ''t1'', count = 3\<rparr>) empty_store))))))) = 3 - 2"
proof -
  let ?s0 = "snd (queueJob (Plain \<lparr>index = ''B'', type = ''t1'', count = 5\<rparr>)
           (snd (queueJob (Plain \<lparr>index = ''A'', type = ''t1'', count = 3\<rparr>) empty_store)))"
  let ?jobs = "[\<lparr>index = ''A'', type = ''t1'', count = 3\<rparr>, \<lparr>index = ''B'', type = ''t1'', count = 5\<rparr>]"
  have h1: "lists ?s0 BACKLOG_QUEUE_KEY = map getID ?jobs" by (simp add: eval_defs)
  have h2: "list_all valid_job ?jobs" by (simp add: valid_job_def valid_name_def SEPARATOR_def)
  have h3: "distinct (map getID ?jobs)" by (simp add: getID_def)
  have h4: "length ?jobs < (3::nat)" by simp
  have e: "fst (interleave [2, 0, 0, 1, 2, 0, 2] (replicate 3 Called, ?s0))
       = [Returned (Inr (Some \<lparr>index = ''B'', type = ''t1'', count = 5\<rparr>)),
          Returned (Inr None),
          Returned (Inr (Some \<lparr>index = ''A'', type = ''t1'', count = 3\<rparr>))]"
    by (simp add: eval_defs interleave_def step_at.simps numeral_3_eq_3)
  then have st: "list_all settled (fst (interleave [2, 0, 0, 1, 2, 0, 2] (replicate 3 Called, ?s0)))"
    by simp
  from fetchJob_exactly_once[OF h1 h2 h3 h4, of "[2, 0, 0, 1, 2, 0, 2]"] st h1 h2 h3 h4 e show ?thesis
    by simp
qed

section \<open>Filters\<close>

lemma foldl_push:
  "foldl (\<lambda>result x. if P x then result @ [g x] else result) acc xs = acc @ map g (filter P xs)"
  by (induction xs arbitrary: acc) simp_all

lemma enumerate_nth: "enumerate 0 xs = map (\<lambda>i. (i, xs ! i)) [0..<length xs]"
  by (rule nth_equalityI) (simp_all add: nth_enumerate_eq)

lemma lodash_filter_positions:
  "lodash_filter xs p = map (\<lambda>i. xs ! i) (filter (\<lambda>i. p (xs ! i) i xs) [0..<length xs])"
  by (simp add: lodash_filter_def enumerate_nth filter_map comp_def)

lemma all_positions: "xs = map (\<lambda>i. xs ! i) (filter (\<lambda>i. True) [0..<length xs])"
  by (simp add: map_nth)

lemma accepts_eta:
  "accepts (Some (JSFunction f)) xs = (\<lambda>i. body f (xs ! i) i xs)"
  "accepts (Some (JSString str)) xs = (\<lambda>i. True)"
  "accepts (Some (JSRegExp r)) xs = (\<lambda>i. True)"
  "accepts (Some JSOther) xs = (\<lambda>i. True)"
  "accepts None xs = (\<lambda>i. True)"
  "accepts_part000 (Some (JSFunction f)) xs = (\<lambda>i. body f (xs ! i) i xs)"
  "accepts_part000 (Some (JSString str)) xs = (\<lambda>i. True)"
  "accepts_part000 (Some (JSRegExp r)) xs = (\<lambda>i. r (name (xs ! i)))"
  "accepts_part000 (Some JSOther) xs = (\<lambda>i. True)"
  "accepts_part000 None xs = (\<lambda>i. True)"
  by (rule ext, simp)+

lemma selectedIndices_accepts:
  "selectedIndices m xs = map (\<lambda>i. xs ! i) (filter (accepts (indexFilter m) xs) [0..<length xs])"
proof (cases "indexFilter m")
  case None
  then show ?thesis by (simp add: selectedIndices_def map_nth accepts_eta)
next
  case (Some v)
  then show ?thesis
    by (cases v) (simp_all add: selectedIndices_def map_nth lodash_filter_positions accepts_eta)
qed

lemma selectedTypes_accepts:
  "selectedTypes m ix = map (\<lambda>k. allTypes ix ! k)
       (filter (accepts (typeFilter m) (allTypes ix)) [0..<length (allTypes ix)])"
proof (cases "typeFilter m")
  case None
  then show ?thesis by (simp add: selectedTypes_def map_nth accepts_eta)
next
  case (Some v)
  then show ?thesis
    by (cases v) (simp_all add: selectedTypes_def map_nth lodash_filter_positions accepts_eta)
qed

lemma selectedIndices_part000_accepts:
  "selectedIndices_part000 m xs = map (\<lambda>i. xs ! i) (filter (accepts_part000 (indexFilter m) xs) [0..<length xs])"
proof (cases "indexFilter m")
  case None
  then show ?thesis by (simp add: selectedIndices_part000_def map_nth accepts_eta)
next
  case (Some v)
  then show ?thesis
    by (cases v) (simp_all add: selectedIndices_part000_def map_nth lodash_filter_positions accepts_eta)
qed

lemma selectedTypes_part000_accepts:
  "selectedTypes_part000 m ix = map (\<lambda>k. allTypes ix ! k)
       (filter (accepts_part000 (typeFilter m) (allTypes ix)) [0..<length (allTypes ix)])"
proof (cases "typeFilter m")
  case None
  then show ?thesis by (simp add: selectedTypes_part000_def map_nth accepts_eta)
next
  case (Some v)
  then show ?thesis
    by (cases v) (simp_all add: selectedTypes_part000_def map_nth lodash_filter_positions accepts_eta)
qed

lemma name_set_name [simp]: "name (set_name t n) = n"
  by (cases t) simp

lemma names_allTypes: "map name (allTypes ix) = map fst (mappings ix)"
  by (simp add: allTypes_def comp_def case_prod_unfold)

lemmas example_defs = example_source_def example_platform_def example_module_def
  example_module_part000_def prepareNewJobs_def prepareNewJobs_part000_def getIndices_def
  filterIndicesAndTypes_def filterIndicesAndTypes_part000_def selectedIndices_def
  selectedIndices_part000_def typeNames_def typeNames_part000_def selectedTypes_def
  selectedTypes_part000_def allTypes_def lodash_filter_def initialize_def initialize_part000_def
  not_completed_def JSON_parse_def target_id_def index_completed_def queueJob_part000_def

text \<open>
  C8: \<^verbatim>\<open>filterIndicesAndTypes\<close> keeps the index at position \<open>i\<close> of the discovered
  list iff the index filter accepts it (every index when no index filter is set) and at
  least one of its types is kept; the entry of a kept index lists, in order, the names
  of exactly those of its types that the type filter accepts (every type when no type
  filter is set); so an index whose kept types are empty is absent from the result. The
  same holds for the older copy, whose stored filter may also be a regular expression.
\<close>

theorem filterIndicesAndTypes_keeps_accepted:
  "filterIndicesAndTypes m allIndices =
     map (\<lambda>i. \<lparr>index = name (allIndices ! i), types = typeNames m (allIndices ! i)\<rparr>)
       (filter (\<lambda>i. accepts (indexFilter m) allIndices i \<and> typeNames m (allIndices ! i) \<noteq> [])
          [0..<length allIndices])
   \<and> typeNames m ix =
     map (\<lambda>k. fst (mappings ix ! k))
       (filter (accepts (typeFilter m) (allTypes ix)) [0..<length (mappings ix)])
   \<and> filterIndicesAndTypes_part000 m allIndices =
     map (\<lambda>i. \<lparr>index = name (allIndices ! i), types = typeNames_part000 m (allIndices ! i)\<rparr>)
       (filter (\<lambda>i. accepts_part000 (indexFilter m) allIndices i \<and> typeNames_part000 m (allIndices ! i) \<noteq> [])
          [0..<length allIndices])
   \<and> typeNames_part000 m ix =
     map (\<lambda>k. fst (mappings ix ! k))
       (filter (accepts_part000 (typeFilter m) (allTypes ix)) [0..<length (mappings ix)])"
proof -
  have len: "length (allTypes ix) = length (mappings ix)" by (simp add: allTypes_def)
  have nm: "name (allTypes ix ! k) = fst (mappings ix ! k)" if "k < length (mappings ix)" for k
    using that by (simp add: allTypes_def case_prod_unfold)
  have 1: "filterIndicesAndTypes m allIndices =
     map (\<lambda>i. \<lparr>index = name (allIndices ! i), types = typeNames m (allIndices ! i)\<rparr>)
       (filter (\<lambda>i. accepts (indexFilter m) allIndices i \<and> typeNames m (allIndices ! i) \<noteq> [])
          [0..<length allIndices])"
    by (simp add: filterIndicesAndTypes_def foldl_push selectedIndices_accepts filter_map comp_def conj_commute)
  have 2: "typeNames m ix =
     map (\<lambda>k. fst (mappings ix ! k))
       (filter (accepts (typeFilter m) (allTypes ix)) [0..<length (mappings ix)])"
    by (simp add: typeNames_def selectedTypes_accepts len nm)
  have 3: "filterIndicesAndTypes_part000 m allIndices =
     map (\<lambda>i. \<lparr>index = name (allIndices ! i), types = typeNames_part000 m (allIndices ! i)\<rparr>)
       (filter (\<lambda>i. accepts_part000 (indexFilter m) allIndices i \<and> typeNames_part000 m (allIndices ! i) \<noteq> [])
          [0..<length allIndices])"
    by (simp add: filterIndicesAndTypes_part000_def foldl_push selectedIndices_part000_accepts filter_map comp_def conj_commute)
  have 4: "typeNames_part000 m ix =
     map (\<lambda>k. fst (mappings ix ! k))
       (filter (accepts_part000 (typeFilter m) (allTypes ix)) [0..<length (mappings ix)])"
    by (simp add: typeNames_part000_def selectedTypes_part000_accepts len nm)
  from 1 2 3 4 show ?thesis by blast
qed

theorem filterIndicesAndTypes_keeps_accepted_witness:
  "filterIndicesAndTypes
     (example_module\<lparr>indexFilter := Some (JSFunction (Function 1 (\<lambda>target i collection. take 1 (name target) = ''A''))),
                     typeFilter := Some (JSFunction (Function 1 (\<lambda>target i collection. name target \<noteq> ''t2'')))\<rparr>)
     [Target ''A1'' [(''t1'', Target [] [] []), (''t2'', Target [] [] [])] [],
      Target ''A2'' [(''t2'', Target [] [] [])] [],
      Target ''B1'' [(''t1'', Target [] [] [])] []]
   = [\<lparr>index = ''A1'', types = [''t1'']\<rparr>]
   \<and> filterIndicesAndTypes example_module
     [Target ''A1'' [(''t1'', Target [] [] []), (''t2'', Target [] [] [])] [],
      Target ''A2'' [] [],
      Target ''B1'' [(''t1'', Target [] [] [])] []]
   = [\<lparr>index = ''A1'', types = [''t1'', ''t2'']\<rparr>, \<lparr>index = ''B1'', types = [''t1'']\<rparr>]"
  using filterIndicesAndTypes_keeps_accepted[of "example_module\<lparr>indexFilter := Some (JSFunction (Function 1 (\<lambda>target i collection. take 1 (name target) = ''A''))),
                     typeFilter := Some (JSFunction (Function 1 (\<lambda>target i collection. name target \<noteq> ''t2'')))\<rparr>"
     "[Target ''A1'' [(''t1'', Target [] [] []), (''t2'', Target [] [] [])] [],
      Target ''A2'' [(''t2'', Target [] [] [])] [],
      Target ''B1'' [(''t1'', Target [] [] [])] []]"]
  by (simp add: example_defs)

text \<open>
  C5, as stated, fails in \<^verbatim>\<open>manager.js\<close>: \<^verbatim>\<open>getFilterFunction\<close> rejects a function
  only when its declared arity is below one (\<^verbatim>\<open>'filter function must take at least one
  argument'\<close>), so a function of arity two is accepted.
\<close>

theorem getFilterFunction_accepts_arity_two:
  "getFilterFunction
     \<lparr>extname = (\<lambda>p. []), require_filter = (\<lambda>p. None), require_comparator = (\<lambda>p. None),
      RegExp = (\<lambda>p. None), Array_sort = (\<lambda>c xs. xs)\<rparr>
     (JSFunction (Function 2 (\<lambda>target i collection. i = 0)))
   = Inr (Function 2 (\<lambda>target i collection. i = 0))"
  by (simp add: getFilterFunction_def)

text \<open>
  C5, amended: in \<^verbatim>\<open>manager.js\<close>, resolution of a function passed to
  \<^verbatim>\<open>setIndexFilter\<close> or \<^verbatim>\<open>setTypeFilter\<close> accepts it iff its declared arity is at
  least one and fails with a configuration error for arity zero; in the older copy the
  two setters accept a function iff its declared arity is exactly one and fail with a
  configuration error otherwise.
\<close>

theorem filter_function_arity_rule:
  "getFilterFunction pf (JSFunction f) = (if 1 \<le> arity f then Inr f else Inl FilterNoArgument)
   \<and> setIndexFilter pf (JSFunction f) m =
       (if 1 \<le> arity f then Inr (m\<lparr>indexFilter := Some (JSFunction f)\<rparr>) else Inl FilterNoArgument)
   \<and> setTypeFilter pf (JSFunction f) m =
       (if 1 \<le> arity f then Inr (m\<lparr>typeFilter := Some (JSFunction f)\<rparr>) else Inl FilterNoArgument)
   \<and> setIndexFilter_part000 (JSFunction f) m0 =
       (if arity f = 1 then Inr (m0\<lparr>indexFilter := Some (JSFunction f)\<rparr>) else Inl FilterInvalid)
   \<and> setTypeFilter_part000 (JSFunction f) m0 =
       (if arity f = 1 then Inr (m0\<lparr>typeFilter := Some (JSFunction f)\<rparr>) else Inl FilterInvalid)"
  by (auto simp: getFilterFunction_def setIndexFilter_def setTypeFilter_def
      setIndexFilter_part000_def setTypeFilter_part000_def)

theorem filter_function_arity_rule_witness:
  "getFilterFunction example_platform (JSFunction (Function 1 (\<lambda>target i collection. name target = ''A'')))
     = Inr (Function 1 (\<lambda>target i collection. name target = ''A''))
   \<and> getFilterFunction example_platform (JSFunction (Function 0 (\<lambda>target i collection. True)))
     = Inl FilterNoArgument
   \<and> setIndexFilter_part000 (JSFunction (Function 2 (\<lambda>target i collection. i = 0))) example_module_part000
     = Inl FilterInvalid"
  using filter_function_arity_rule[of example_platform "Function 1 (\<lambda>target i collection. name target = ''A'')"]
    filter_function_arity_rule[of example_platform "Function 0 (\<lambda>target i collection. True)"]
    filter_function_arity_rule[of example_platform "Function 2 (\<lambda>target i collection. i = 0)" _ example_module_part000]
  by simp

section \<open>Count enrichment\<close>

lemma addCountToJobs_append:
  assumes "source (vars w) = Some client"
    and "map (\<lambda>j. count_docs client (index j) (type j)) pre = map Inr cs"
  shows "addCountToJobs (pre @ post) w =
     (case addCountToJobs post (w\<lparr>requests := requests w @ map (\<lambda>j. (index j, type j)) pre\<rparr>) of
        (Inl e, w') \<Rightarrow> (Inl e, w')
      | (Inr counted, w') \<Rightarrow>
          (Inr (map (\<lambda>(j, c). \<lparr>index = index j, type = type j, count = parseInt c\<rparr>) (zip pre cs) @ counted), w'))"
  using assms
proof (induction pre arbitrary: cs w)
  case Nil
  then show ?case by (simp split: prod.splits sum.splits)
next
  case (Cons j pre)
  from Cons.prems(2) obtain c cs' where cs: "cs = c # cs'"
    and c: "count_docs client (index j) (type j) = Inr c"
    and rest: "map (\<lambda>j. count_docs client (index j) (type j)) pre = map Inr cs'"
    by (cases cs) auto
  let ?w1 = "w\<lparr>requests := requests w @ [(index j, type j)]\<rparr>"
  have s1: "source (vars ?w1) = Some client" using Cons.prems(1) by simp
  from Cons.IH[OF s1 rest] Cons.prems(1) c cs show ?case
    by (simp split: prod.splits sum.splits)
qed

lemma addCountToJobs_part000_append:
  assumes "source (vars w) = Some client"
    and "map (\<lambda>j. count_docs client (index j) (type j)) pre = map Inr cs"
  shows "addCountToJobs_part000 (pre @ post) w =
     (case addCountToJobs_part000 post
             (w\<lparr>requests := requests w @ map (\<lambda>j. (index j, type j)) pre,
                vars := (vars w)\<lparr>totalCount := totalCount (vars w) + sum_list (map parseInt cs)\<rparr>\<rparr>) of
        (Inl e, w') \<Rightarrow> (Inl e, w')
      | (Inr counted, w') \<Rightarrow>
          (Inr (map (\<lambda>(j, c). \<lparr>index = index j, type = type j, count = parseInt c\<rparr>) (zip pre cs) @ counted), w'))"
  using assms
proof (induction pre arbitrary: cs w)
  case Nil
  then show ?case by (simp split: prod.splits sum.splits)
next
  case (Cons j pre)
  from Cons.prems(2) obtain c cs' where cs: "cs = c # cs'"
    and c: "count_docs client (index j) (type j) = Inr c"
    and rest: "map (\<lambda>j. count_docs client (index j) (type j)) pre = map Inr cs'"
    by (cases cs) auto
  let ?w1 = "w\<lparr>requests := requests w @ [(index j, type j)],
                vars := (vars w)\<lparr>totalCount := totalCount (vars w) + parseInt c\<rparr>\<rparr>"
  have s1: "source (vars ?w1) = Some client" using Cons.prems(1) by simp
  from Cons.IH[OF s1 rest] Cons.prems(1) c cs show ?case
    by (simp split: prod.splits sum.splits add: add.assoc)
qed

text \<open>
  C6, as stated, fails in \<^verbatim>\<open>manager.js\<close>: its \<^verbatim>\<open>addCountToJobs\<close> keeps no running
  total. After enriching three jobs with 5, 3 and 7 documents every variable of the
  module is what it was; the older copy has added 15 to its \<^verbatim>\<open>totalCount\<close>.
\<close>

theorem addCountToJobs_keeps_no_total:
  "fst (addCountToJobs
          [\<lparr>index = ''B'', type = ''t1''\<rparr>, \<lparr>index = ''A'', type = ''t1''\<rparr>, \<lparr>index = ''A'', type = ''t2''\<rparr>]
          \<lparr>vars = example_module, requests = []\<rparr>)
     = Inr [\<lparr>index = ''B'', type = ''t1'', count = 5\<rparr>, \<lparr>index = ''A'', type = ''t1'', count = 3\<rparr>,
            \<lparr>index = ''A'', type = ''t2'', count = 7\<rparr>]
   \<and> vars (snd (addCountToJobs
          [\<lparr>index = ''B'', type = ''t1''\<rparr>, \<lparr>index = ''A'', type = ''t1''\<rparr>, \<lparr>index = ''A'', type = ''t2''\<rparr>]
          \<lparr>vars = example_module, requests = []\<rparr>))
     = example_module
   \<and> totalCount (vars (snd (addCountToJobs_part000
          [\<lparr>index = ''B'', type = ''t1''\<rparr>, \<lparr>index = ''A'', type = ''t1''\<rparr>, \<lparr>index = ''A'', type = ''t2''\<rparr>]
          \<lparr>vars = example_module_part000, requests = []\<rparr>)))
     = 15"
  by (simp add: example_module_def example_module_part000_def example_source_def parseInt_def)

text \<open>
  C6, amended: for every ordered job sequence, both copies of \<^verbatim>\<open>addCountToJobs\<close>
  send the count requests one at a time in the jobs' order and give each job the
  integer-parsed count of its own reply; when a request fails the whole enrichment
  rejects with that error, returns no job list and sends no further request. The older
  copy also adds each count to \<^verbatim>\<open>totalCount\<close> as it arrives, so that the total covers
  the jobs processed so far, also when a later request fails; \<^verbatim>\<open>manager.js\<close> keeps
  no total.
\<close>

theorem count_enrichment_sequential:
  assumes "source (vars w) = Some client" and "source (vars w0) = Some client"
    and "map (\<lambda>j. count_docs client (index j) (type j)) jobs = map Inr cs"
  shows "addCountToJobs jobs w =
           (Inr (map (\<lambda>(j, c). \<lparr>index = index j, type = type j, count = parseInt c\<rparr>) (zip jobs cs)),
            w\<lparr>requests := requests w @ map (\<lambda>j. (index j, type j)) jobs\<rparr>)
       \<and> addCountToJobs_part000 jobs w0 =
           (Inr (map (\<lambda>(j, c). \<lparr>index = index j, type = type j, count = parseInt c\<rparr>) (zip jobs cs)),
            w0\<lparr>requests := requests w0 @ map (\<lambda>j. (index j, type j)) jobs,
               vars := (vars w0)\<lparr>totalCount := totalCount (vars w0) + sum_list (map parseInt cs)\<rparr>\<rparr>)
       \<and> (count_docs client (index bad) (type bad) = Inl e \<longrightarrow>
            addCountToJobs (jobs @ bad # later) w =
              (Inl e, w\<lparr>requests := requests w @ map (\<lambda>j. (index j, type j)) (jobs @ [bad])\<rparr>)
          \<and> addCountToJobs_part000 (jobs @ bad # later) w0 =
              (Inl e, w0\<lparr>requests := requests w0 @ map (\<lambda>j. (index j, type j)) (jobs @ [bad]),
                  vars := (vars w0)\<lparr>totalCount := totalCount (vars w0) + sum_list (map parseInt cs)\<rparr>\<rparr>))"
proof -
  have 1: "addCountToJobs jobs w =
           (Inr (map (\<lambda>(j, c). \<lparr>index = index j, type = type j, count = parseInt c\<rparr>) (zip jobs cs)),
            w\<lparr>requests := requests w @ map (\<lambda>j. (index j, type j)) jobs\<rparr>)"
    using addCountToJobs_append[OF assms(1,3), of "[]"] by simp
  have 2: "addCountToJobs_part000 jobs w0 =
           (Inr (map (\<lambda>(j, c). \<lparr>index = index j, type = type j, count = parseInt c\<rparr>) (zip jobs cs)),
            w0\<lparr>requests := requests w0 @ map (\<lambda>j. (index j, type j)) jobs,
               vars := (vars w0)\<lparr>totalCount := totalCount (vars w0) + sum_list (map parseInt cs)\<rparr>\<rparr>)"
    using addCountToJobs_part000_append[OF assms(2,3), of "[]"] by simp
  have 3: "addCountToJobs (jobs @ bad # later) w =
              (Inl e, w\<lparr>requests := requests w @ map (\<lambda>j. (index j, type j)) (jobs @ [bad])\<rparr>)"
    if "count_docs client (index bad) (type bad) = Inl e"
    using addCountToJobs_append[OF assms(1,3), of "bad # later"] that assms(1) by simp
  have 4: "addCountToJobs_part000 (jobs @ bad # later) w0 =
              (Inl e, w0\<lparr>requests := requests w0 @ map (\<lambda>j. (index j, type j)) (jobs @ [bad]),
                  vars := (vars w0)\<lparr>totalCount := totalCount (vars w0) + sum_list (map parseInt cs)\<rparr>\<rparr>)"
    if "count_docs client (index bad) (type bad) = Inl e"
    using addCountToJobs_part000_append[OF assms(2,3), of "bad # later"] that assms(2) by simp
  from 1 2 3 4 show ?thesis by blast
qed

theorem count_enrichment_sequential_witness:
  "source (vars \<lparr>vars = example_module, requests = []\<rparr>) = Some example_source
   \<and> source (vars \<lparr>vars = example_module_part000, requests = []\<rparr>) = Some example_source
   \<and> map (\<lambda>j. count_docs example_source (index j) (type j))
         [\<lparr>index = ''B'', type = ''t1''\<rparr>, \<lparr>index = ''A'', type = ''t1''\<rparr>] = map Inr [5, 3]
   \<and> count_docs example_source (index \<lparr>index = ''X'', type = ''t9''\<rparr>) (type \<lparr>index = ''X'', type = ''t9''\<rparr>)
        = Inl (SourceQueryError ''missing'')
   \<and> addCountToJobs_part000 [\<lparr>index = ''B'', type = ''t1''\<rparr>, \<lparr>index = ''A'', type = ''t1''\<rparr>]
         \<lparr>vars = example_module_part000, requests = []\<rparr>
       = (Inr [\<lparr>index = ''B'', type = ''t1'', count = 5\<rparr>, \<lparr>index = ''A'', type = ''t1'', count = 3\<rparr>],
          \<lparr>vars = example_module_part000\<lparr>totalCount := 8\<rparr>,
            requests = [(''B'', ''t1''), (''A'', ''t1'')]\<rparr>)
   \<and> addCountToJobs
         ([\<lparr>index = ''B'', type = ''t1''\<rparr>, \<lparr>index = ''A'', type = ''t1''\<rparr>]
            @ \<lparr>index = ''X'', type = ''t9''\<rparr> # [\<lparr>index = ''A'', type = ''t2''\<rparr>])
         \<lparr>vars = example_module, requests = []\<rparr>
       = (Inl (SourceQueryError ''missing''),
          \<lparr>vars = example_module, requests = [(''B'', ''t1''), (''A'', ''t1''), (''X'', ''t9'')]\<rparr>)
   \<and> addCountToJobs_part000
         ([\<lparr>index = ''B'', type = ''t1''\<rparr>, \<lparr>index = ''A'', type = ''t1''\<rparr>]
            @ \<lparr>index = ''X'', type = ''t9''\<rparr> # [\<lparr>index = ''A'', type = ''t2''\<rparr>])
         \<lparr>vars = example_module_part000, requests = []\<rparr>
       = (Inl (SourceQueryError ''missing''),
          \<lparr>vars = example_module_part000\<lparr>totalCount := 8\<rparr>,
            requests = [(''B'', ''t1''), (''A'', ''t1''), (''X'', ''t9'')]\<rparr>)"
proof -
  have h1: "source (vars \<lparr>vars = example_module, requests = []\<rparr>) = Some example_source"
    by (simp add: example_module_def)
  have h2: "source (vars \<lparr>vars = example_module_part000, requests = []\<rparr>) = Some example_source"
    by (simp add: example_module_part000_def)
  have h3: "map (\<lambda>j. count_docs example_source (index j) (type j))
         [\<lparr>index = ''B'', type = ''t1''\<rparr>, \<lparr>index = ''A'', type = ''t1''\<rparr>] = map Inr [5, 3]"
    by (simp add: example_source_def)
  have h4: "count_docs example_source (index \<lparr>index = ''X'', type = ''t9''\<rparr>) (type \<lparr>index = ''X'', type = ''t9''\<rparr>)
        = Inl (SourceQueryError ''missing'')"
    by (simp add: example_source_def)
  have t: "totalCount example_module_part000 = 0" by (simp add: example_module_part000_def)
  from count_enrichment_sequential[OF h1 h2 h3, of "\<lparr>index = ''X'', type = ''t9''\<rparr>" "SourceQueryError ''missing''"
      "[\<lparr>index = ''A'', type = ''t2''\<rparr>]"] h1 h2 h3 h4 t
  show ?thesis by (simp add: parseInt_def)
qed

section \<open>The orchestrator\<close>

lemma queueJob_Plain_queue:
  "set (lists (snd (queueJob (Plain j) s)) BACKLOG_QUEUE_KEY)
     \<subseteq> (if valid_job j then insert (getID j) (set (lists s BACKLOG_QUEUE_KEY)) else set (lists s BACKLOG_QUEUE_KEY))"
  by (auto simp: queueJob_def hset_def rpush_def split: if_splits)

lemma queueJob_completed [simp]:
  "hashes (snd (queueJob a s)) COMPLETED_KEY = hashes s COMPLETED_KEY"
  by (auto simp: queueJob_def hset_def rpush_def split: sum.splits if_splits)

lemma each_queueJob_queue_subset:
  "set (lists (snd (each_queueJob js s)) BACKLOG_QUEUE_KEY)
     \<subseteq> set (lists s BACKLOG_QUEUE_KEY) \<union> getID ` {j \<in> set js. valid_job j}"
proof (induction js arbitrary: s)
  case Nil
  then show ?case by simp
next
  case (Cons j js)
  obtain r s1 where q: "queueJob (Plain j) s = (r, s1)" by (cases "queueJob (Plain j) s")
  have s1: "set (lists s1 BACKLOG_QUEUE_KEY)
     \<subseteq> (if valid_job j then insert (getID j) (set (lists s BACKLOG_QUEUE_KEY)) else set (lists s BACKLOG_QUEUE_KEY))"
    using queueJob_Plain_queue[of j s] q by simp
  show ?case
  proof (cases r)
    case (Inl e)
    with q s1 show ?thesis by (auto split: if_splits)
  next
    case (Inr v)
    obtain r2 s2 where e: "each_queueJob js s1 = (r2, s2)" by (cases "each_queueJob js s1")
    from Cons.IH[of s1] e have "set (lists s2 BACKLOG_QUEUE_KEY)
        \<subseteq> set (lists s1 BACKLOG_QUEUE_KEY) \<union> getID ` {j \<in> set js. valid_job j}"
      by simp
    with s1 q Inr e show ?thesis by (cases r2) (auto split: if_splits)
  qed
qed

lemma each_queueJob_completed [simp]:
  "hashes (snd (each_queueJob js s)) COMPLETED_KEY = hashes s COMPLETED_KEY"
proof (induction js arbitrary: s)
  case Nil
  then show ?case by simp
next
  case (Cons j js)
  obtain r s1 where q: "queueJob (Plain j) s = (r, s1)" by (cases "queueJob (Plain j) s")
  then have c: "hashes s1 COMPLETED_KEY = hashes s COMPLETED_KEY"
    using queueJob_completed[of "Plain j" s] by simp
  obtain r2 s2 where e: "each_queueJob js s1 = (r2, s2)" by (cases "each_queueJob js s1")
  with Cons.IH[of s1] have "hashes s2 COMPLETED_KEY = hashes s1 COMPLETED_KEY" by simp
  with c q e show ?case by (cases r; cases r2) simp_all
qed

lemma clearBacklogJobs_effect:
  "lists (snd (clearBacklogJobs s)) BACKLOG_QUEUE_KEY = []"
  "hashes (snd (clearBacklogJobs s)) BACKLOG_HSET_KEY = []"
  "hashes (snd (clearBacklogJobs s)) COMPLETED_KEY = hashes s COMPLETED_KEY"
  by (simp_all add: clearBacklogJobs_def del_def)

lemma clearCompletedJobs_effect:
  "lists (snd (clearCompletedJobs s)) BACKLOG_QUEUE_KEY = lists s BACKLOG_QUEUE_KEY"
  "hashes (snd (clearCompletedJobs s)) BACKLOG_HSET_KEY = hashes s BACKLOG_HSET_KEY"
  "hashes (snd (clearCompletedJobs s)) COMPLETED_KEY = []"
  by (simp_all add: clearCompletedJobs_def del_def)

lemma addCountToJobs_targets:
  "fst (addCountToJobs jobs w) = Inr counted \<Longrightarrow> map getID counted = map target_id jobs"
proof (induction jobs arbitrary: w counted)
  case Nil
  then show ?case by simp
next
  case (Cons j jobs)
  from Cons.prems obtain client where cl: "source (vars w) = Some client"
    by (cases "source (vars w)") simp_all
  from Cons.prems cl obtain c where c: "count_docs client (index j) (type j) = Inr c"
    by (cases "count_docs client (index j) (type j)") simp_all
  let ?w1 = "w\<lparr>requests := requests w @ [(index j, type j)]\<rparr>"
  obtain r w' where rec: "addCountToJobs jobs ?w1 = (r, w')" by (cases "addCountToJobs jobs ?w1")
  from Cons.prems cl c rec obtain counted' where r: "r = Inr counted'"
    and cd: "counted = \<lparr>index = index j, type = type j, count = parseInt c\<rparr> # counted'"
    by (cases r) auto
  from Cons.IH[of ?w1 counted'] rec r have "map getID counted' = map target_id jobs" by simp
  moreover have "getID \<lparr>index = index j, type = type j, count = parseInt c\<rparr> = target_id j"
    by (simp add: getID_def target_id_def)
  ultimately show ?case using cd by simp
qed

lemma addCountToJobs_part000_targets:
  "fst (addCountToJobs_part000 jobs w) = Inr counted \<Longrightarrow> map getID counted = map target_id jobs"
proof (induction jobs arbitrary: w counted)
  case Nil
  then show ?case by simp
next
  case (Cons j jobs)
  from Cons.prems obtain client where cl: "source (vars w) = Some client"
    by (cases "source (vars w)") simp_all
  from Cons.prems cl obtain c where c: "count_docs client (index j) (type j) = Inr c"
    by (cases "count_docs client (index j) (type j)") simp_all
  let ?w1 = "w\<lparr>requests := requests w @ [(index j, type j)], vars := (vars w)\<lparr>totalCount := totalCount (vars w) + parseInt c\<rparr>\<rparr>"
  obtain r w' where rec: "addCountToJobs_part000 jobs ?w1 = (r, w')" by (cases "addCountToJobs_part000 jobs ?w1")
  from Cons.prems cl c rec obtain counted' where r: "r = Inr counted'"
    and cd: "counted = \<lparr>index = index j, type = type j, count = parseInt c\<rparr> # counted'"
    by (cases r) auto
  from Cons.IH[of ?w1 counted'] rec r have "map getID counted' = map target_id jobs" by simp
  moreover have "getID \<lparr>index = index j, type = type j, count = parseInt c\<rparr> = target_id j"
    by (simp add: getID_def target_id_def)
  ultimately show ?case using cd by simp
qed

lemma addCountToJobs_fields:
  "fst (addCountToJobs jobs w) = Inr counted \<Longrightarrow>
     map (\<lambda>j. (index j, type j)) counted = map (\<lambda>j. (index j, type j)) jobs"
proof (induction jobs arbitrary: w counted)
  case Nil
  then show ?case by simp
next
  case (Cons j jobs)
  from Cons.prems obtain client where cl: "source (vars w) = Some client"
    by (cases "source (vars w)") simp_all
  from Cons.prems cl obtain c where c: "count_docs client (index j) (type j) = Inr c"
    by (cases "count_docs client (index j) (type j)") simp_all
  let ?w1 = "w\<lparr>requests := requests w @ [(index j, type j)]\<rparr>"
  obtain r w' where rec: "addCountToJobs jobs ?w1 = (r, w')" by (cases "addCountToJobs jobs ?w1")
  from Cons.prems cl c rec obtain counted' where r: "r = Inr counted'"
    and cd: "counted = \<lparr>index = index j, type = type j, count = parseInt c\<rparr> # counted'"
    by (cases r) auto
  from Cons.IH[of ?w1 counted'] rec r
  have "map (\<lambda>j. (index j, type j)) counted' = map (\<lambda>j. (index j, type j)) jobs" by simp
  with cd show ?case by simp
qed

lemma addCountToJobs_part000_fields:
  "fst (addCountToJobs_part000 jobs w) = Inr counted \<Longrightarrow>
     map (\<lambda>j. (index j, type j)) counted = map (\<lambda>j. (index j, type j)) jobs"
proof (induction jobs arbitrary: w counted)
  case Nil
  then show ?case by simp
next
  case (Cons j jobs)
  from Cons.prems obtain client where cl: "source (vars w) = Some client"
    by (cases "source (vars w)") simp_all
  from Cons.prems cl obtain c where c: "count_docs client (index j) (type j) = Inr c"
    by (cases "count_docs client (index j) (type j)") simp_all
  let ?w1 = "w\<lparr>requests := requests w @ [(index j, type j)], vars := (vars w)\<lparr>totalCount := totalCount (vars w) + parseInt c\<rparr>\<rparr>"
  obtain r w' where rec: "addCountToJobs_part000 jobs ?w1 = (r, w')" by (cases "addCountToJobs_part000 jobs ?w1")
  from Cons.prems cl c rec obtain counted' where r: "r = Inr counted'"
    and cd: "counted = \<lparr>index = index j, type = type j, count = parseInt c\<rparr> # counted'"
    by (cases r) auto
  from Cons.IH[of ?w1 counted'] rec r
  have "map (\<lambda>j. (index j, type j)) counted' = map (\<lambda>j. (index j, type j)) jobs" by simp
  with cd show ?case by simp
qed

lemma counted_valid_targets:
  assumes "map (\<lambda>j. (index j, type j)) counted = map (\<lambda>j. (index j, type j)) jobs"
  shows "getID ` {j \<in> set counted. valid_job j}
     \<subseteq> {target_id pj | pj. pj \<in> set jobs \<and> valid_name (index pj) \<and> valid_name (type pj)}"
proof
  fix i assume "i \<in> getID ` {j \<in> set counted. valid_job j}"
  then obtain c where c: "c \<in> set counted" "valid_job c" "i = getID c" by auto
  from c(1) have "(index c, type c) \<in> set (map (\<lambda>j. (index j, type j)) counted)" by force
  with assms have "(index c, type c) \<in> set (map (\<lambda>j. (index j, type j)) jobs)" by simp
  then obtain pj where pj: "pj \<in> set jobs" "index pj = index c" "type pj = type c" by auto
  with c(2,3) have "i = target_id pj" "valid_name (index pj)" "valid_name (type pj)"
    by (simp_all add: getID_def target_id_def valid_job_def)
  with pj(1) show "i \<in> {target_id pj | pj. pj \<in> set jobs \<and> valid_name (index pj) \<and> valid_name (type pj)}"
    by blast
qed

lemma queueJob_part000_Plain: "queueJob_part000 (Plain j) s = queueJob (Plain j) s"
  by (simp add: queueJob_part000_def queueJob_def)

lemma each_queueJob_part000_eq: "each_queueJob_part000 js s = each_queueJob js s"
  by (induction js arbitrary: s) (simp_all add: queueJob_part000_Plain split: prod.splits sum.splits)

lemma not_completed_iff: "not_completed cs pj \<longleftrightarrow> index pj \<notin> index ` set cs"
  by (auto simp: not_completed_def find_None_iff image_iff)

lemma createAll_set:
  "createAll h = Inr js \<Longrightarrow> set js = {cj. \<exists>(cid, c) \<in> set h. createFromID cid (Some c) = Inr cj}"
proof (induction h arbitrary: js)
  case Nil
  then show ?case by simp
next
  case (Cons p h)
  obtain cid c where p: "p = (cid, c)" by (cases p)
  from Cons.prems p obtain j js' where j: "createFromID cid (Some c) = Inr j" and r: "createAll h = Inr js'" and js: "js = j # js'"
    by (auto split: sum.splits)
  from Cons.IH[OF r] j js p show ?case by auto
qed

lemma queueJob_Plain_valid:
  assumes "valid_job j"
  shows "fst (queueJob (Plain j) s) = Inr (if getID j \<in> set (hkeys BACKLOG_HSET_KEY s) then None
            else Some (length (lists s BACKLOG_QUEUE_KEY) + 1))"
    and "lists (snd (queueJob (Plain j) s)) BACKLOG_QUEUE_KEY =
           (if getID j \<in> set (hkeys BACKLOG_HSET_KEY s) then lists s BACKLOG_QUEUE_KEY
            else lists s BACKLOG_QUEUE_KEY @ [getID j])"
    and "hkeys BACKLOG_HSET_KEY (snd (queueJob (Plain j) s)) =
           (if getID j \<in> set (hkeys BACKLOG_HSET_KEY s) then hkeys BACKLOG_HSET_KEY s
            else hkeys BACKLOG_HSET_KEY s @ [getID j])"
proof -
  have c: "coerce_job (Plain j) = Inr j" using assms by simp
  show "fst (queueJob (Plain j) s) = Inr (if getID j \<in> set (hkeys BACKLOG_HSET_KEY s) then None
            else Some (length (lists s BACKLOG_QUEUE_KEY) + 1))"
    by (simp add: queueJob_Inr[OF c])
  show "lists (snd (queueJob (Plain j) s)) BACKLOG_QUEUE_KEY =
           (if getID j \<in> set (hkeys BACKLOG_HSET_KEY s) then lists s BACKLOG_QUEUE_KEY
            else lists s BACKLOG_QUEUE_KEY @ [getID j])"
    by (simp add: queueJob_Inr[OF c] lists_rpush)
  show "hkeys BACKLOG_HSET_KEY (snd (queueJob (Plain j) s)) =
           (if getID j \<in> set (hkeys BACKLOG_HSET_KEY s) then hkeys BACKLOG_HSET_KEY s
            else hkeys BACKLOG_HSET_KEY s @ [getID j])"
    by (simp add: queueJob_Inr[OF c] hkeys_hset)
qed

lemma each_queueJob_valid:
  assumes "list_all valid_job js" "distinct (lists s BACKLOG_QUEUE_KEY)"
    "set (lists s BACKLOG_QUEUE_KEY) = set (hkeys BACKLOG_HSET_KEY s)"
  shows "fst (each_queueJob js s) = Inr js
     \<and> distinct (lists (snd (each_queueJob js s)) BACKLOG_QUEUE_KEY)
     \<and> set (lists (snd (each_queueJob js s)) BACKLOG_QUEUE_KEY) = set (lists s BACKLOG_QUEUE_KEY) \<union> getID ` set js
     \<and> (distinct (map getID js) \<and> getID ` set js \<inter> set (lists s BACKLOG_QUEUE_KEY) = {} \<longrightarrow>
          lists (snd (each_queueJob js s)) BACKLOG_QUEUE_KEY = lists s BACKLOG_QUEUE_KEY @ map getID js)"
  using assms
proof (induction js arbitrary: s)
  case Nil
  then show ?case by simp
next
  case (Cons j js)
  from Cons.prems(1) have vj: "valid_job j" and vjs: "list_all valid_job js" by simp_all
  obtain r s1 where q: "queueJob (Plain j) s = (r, s1)" by (cases "queueJob (Plain j) s")
  from queueJob_Plain_valid[OF vj, of s] q
  have r: "r = Inr (if getID j \<in> set (hkeys BACKLOG_HSET_KEY s) then None
            else Some (length (lists s BACKLOG_QUEUE_KEY) + 1))"
    and l1: "lists s1 BACKLOG_QUEUE_KEY =
           (if getID j \<in> set (hkeys BACKLOG_HSET_KEY s) then lists s BACKLOG_QUEUE_KEY
            else lists s BACKLOG_QUEUE_KEY @ [getID j])"
    and k1: "hkeys BACKLOG_HSET_KEY s1 =
           (if getID j \<in> set (hkeys BACKLOG_HSET_KEY s) then hkeys BACKLOG_HSET_KEY s
            else hkeys BACKLOG_HSET_KEY s @ [getID j])"
    by simp_all
  from l1 k1 Cons.prems(2,3) have d1: "distinct (lists s1 BACKLOG_QUEUE_KEY)"
    and e1: "set (lists s1 BACKLOG_QUEUE_KEY) = set (hkeys BACKLOG_HSET_KEY s1)"
    by (auto split: if_splits)
  obtain r2 s2 where e: "each_queueJob js s1 = (r2, s2)" by (cases "each_queueJob js s1")
  from Cons.IH[OF vjs d1 e1] e
  have r2: "r2 = Inr js" and d2: "distinct (lists s2 BACKLOG_QUEUE_KEY)"
    and s2: "set (lists s2 BACKLOG_QUEUE_KEY) = set (lists s1 BACKLOG_QUEUE_KEY) \<union> getID ` set js"
    and o2: "distinct (map getID js) \<and> getID ` set js \<inter> set (lists s1 BACKLOG_QUEUE_KEY) = {} \<longrightarrow>
          lists s2 BACKLOG_QUEUE_KEY = lists s1 BACKLOG_QUEUE_KEY @ map getID js"
    by simp_all
  have res: "each_queueJob (j # js) s = (Inr (j # js), s2)"
    using q r e r2 by simp
  have set_eq: "set (lists s2 BACKLOG_QUEUE_KEY) = set (lists s BACKLOG_QUEUE_KEY) \<union> getID ` set (j # js)"
    using s2 l1 Cons.prems(3) by (auto split: if_splits)
  have ord: "lists s2 BACKLOG_QUEUE_KEY = lists s BACKLOG_QUEUE_KEY @ map getID (j # js)"
    if "distinct (map getID (j # js))" "getID ` set (j # js) \<inter> set (lists s BACKLOG_QUEUE_KEY) = {}"
  proof -
    from that Cons.prems(3) have nj: "getID j \<notin> set (hkeys BACKLOG_HSET_KEY s)" by auto
    with l1 have l1': "lists s1 BACKLOG_QUEUE_KEY = lists s BACKLOG_QUEUE_KEY @ [getID j]" by simp
    from that l1' have "distinct (map getID js) \<and> getID ` set js \<inter> set (lists s1 BACKLOG_QUEUE_KEY) = {}"
      by auto
    with o2 l1' show ?thesis by simp
  qed
  from res d2 set_eq ord show ?case by simp
qed

lemma initialize_False_cases:
  assumes prep: "prepareNewJobs pf (vars w) names = Inr potentialJobs"
  shows "hashes (snd (snd (initialize pf names False (w, s)))) COMPLETED_KEY = hashes s COMPLETED_KEY
     \<and> set (lists (snd (snd (initialize pf names False (w, s)))) BACKLOG_QUEUE_KEY)
          \<subseteq> {target_id pj | pj. pj \<in> set potentialJobs \<and> valid_name (index pj) \<and> valid_name (type pj) \<and>
               (\<forall>(cid, c) \<in> set (hgetall COMPLETED_KEY s). \<forall>cj. createFromID cid (Some c) = Inr cj \<longrightarrow> index cj \<noteq> index pj)}"
proof -
  define s1 where "s1 = snd (clearBacklogJobs s)"
  have q1: "lists s1 BACKLOG_QUEUE_KEY = []" and c1: "hashes s1 COMPLETED_KEY = hashes s COMPLETED_KEY"
    by (simp_all add: s1_def clearBacklogJobs_effect)
  show ?thesis
  proof (cases "getCompletedJobs s1")
    case (Inl e)
    then have "initialize pf names False (w, s) = (Inl e, w, s1)"
      by (simp add: initialize_def prep s1_def case_prod_beta)
    with q1 c1 show ?thesis by simp
  next
    case (Inr completed)
    define jobs where "jobs = filter (not_completed (map JSON_parse completed)) potentialJobs"
    have comp: "set completed = {cj. \<exists>(cid, c) \<in> set (hgetall COMPLETED_KEY s). createFromID cid (Some c) = Inr cj}"
      using Inr c1 createAll_set[of "hashes s COMPLETED_KEY" completed]
      by (simp add: getCompletedJobs_def hgetall_def)
    have ok: "\<forall>(cid, c) \<in> set (hgetall COMPLETED_KEY s). \<forall>cj. createFromID cid (Some c) = Inr cj \<longrightarrow> index cj \<noteq> index pj"
      if "pj \<in> set jobs" for pj
    proof -
      from that have "index pj \<notin> index ` set (map JSON_parse completed)"
        by (simp add: jobs_def not_completed_iff)
      then have "\<forall>cj \<in> set completed. index cj \<noteq> index pj"
        by (auto simp: JSON_parse_def image_iff)
      with comp show ?thesis by auto
    qed
    obtain r w1 where a: "addCountToJobs jobs w = (r, w1)" by (cases "addCountToJobs jobs w")
    show ?thesis
    proof (cases r)
      case (Inl e)
      with a Inr have "initialize pf names False (w, s) = (Inl e, w1, s1)"
        by (simp add: initialize_def prep s1_def jobs_def case_prod_beta)
      with q1 c1 show ?thesis by simp
    next
      case r: (Inr counted)
      with a Inr have i: "initialize pf names False (w, s)
           = (fst (each_queueJob counted s1), w1, snd (each_queueJob counted s1))"
        by (simp add: initialize_def prep s1_def jobs_def case_prod_beta)
      from a r have flds: "map (\<lambda>j. (index j, type j)) counted = map (\<lambda>j. (index j, type j)) jobs"
        using addCountToJobs_fields[of jobs w counted] by simp
      have "set (lists (snd (each_queueJob counted s1)) BACKLOG_QUEUE_KEY) \<subseteq> getID ` {j \<in> set counted. valid_job j}"
        using each_queueJob_queue_subset[of counted s1] q1 by simp
      also have "\<dots> \<subseteq> {target_id pj | pj. pj \<in> set jobs \<and> valid_name (index pj) \<and> valid_name (type pj)}"
        using flds by (rule counted_valid_targets)
      also have "\<dots> \<subseteq> {target_id pj | pj. pj \<in> set potentialJobs \<and> valid_name (index pj) \<and> valid_name (type pj) \<and>
               (\<forall>(cid, c) \<in> set (hgetall COMPLETED_KEY s). \<forall>cj. createFromID cid (Some c) = Inr cj \<longrightarrow> index cj \<noteq> index pj)}"
      proof
        fix i assume "i \<in> {target_id pj | pj. pj \<in> set jobs \<and> valid_name (index pj) \<and> valid_name (type pj)}"
        then obtain pj where pj: "pj \<in> set jobs" "i = target_id pj" "valid_name (index pj)" "valid_name (type pj)"
          by blast
        from pj(1) have "pj \<in> set potentialJobs" by (simp add: jobs_def)
        with ok[OF pj(1)] pj(2,3,4) show "i \<in> {target_id pj | pj. pj \<in> set potentialJobs \<and> valid_name (index pj) \<and> valid_name (type pj) \<and>
               (\<forall>(cid, c) \<in> set (hgetall COMPLETED_KEY s). \<forall>cj. createFromID cid (Some c) = Inr cj \<longrightarrow> index cj \<noteq> index pj)}"
          by blast
      qed
      finally have sub: "set (lists (snd (each_queueJob counted s1)) BACKLOG_QUEUE_KEY)
          \<subseteq> {target_id pj | pj. pj \<in> set potentialJobs \<and> valid_name (index pj) \<and> valid_name (type pj) \<and>
               (\<forall>(cid, c) \<in> set (hgetall COMPLETED_KEY s). \<forall>cj. createFromID cid (Some c) = Inr cj \<longrightarrow> index cj \<noteq> index pj)}" .
      with sub i c1 show ?thesis by simp
    qed
  qed
qed

lemma initialize_True_cleared:
  assumes prep: "prepareNewJobs pf (vars w) names = Inr potentialJobs"
  shows "hashes (snd (snd (initialize pf names True (w, s)))) COMPLETED_KEY = []"
proof -
  define s2 where "s2 = snd (clearCompletedJobs (snd (clearBacklogJobs s)))"
  have c2: "hashes s2 COMPLETED_KEY = []" by (simp add: s2_def clearCompletedJobs_effect)
  obtain r w1 where a: "addCountToJobs potentialJobs w = (r, w1)" by (cases "addCountToJobs potentialJobs w")
  show ?thesis
  proof (cases r)
    case (Inl e)
    with a have "initialize pf names True (w, s) = (Inl e, w1, s2)"
      by (simp add: initialize_def prep s2_def case_prod_beta)
    with c2 show ?thesis by simp
  next
    case (Inr counted)
    with a have "initialize pf names True (w, s)
           = (fst (each_queueJob counted s2), w1, snd (each_queueJob counted s2))"
      by (simp add: initialize_def prep s2_def case_prod_beta)
    with c2 show ?thesis by simp
  qed
qed

lemma initialize_True_all:
  assumes prep: "prepareNewJobs pf (vars w) names = Inr potentialJobs"
    and src: "source (vars w) = Some client"
    and cnt: "map (\<lambda>j. count_docs client (index j) (type j)) potentialJobs = map Inr cs"
    and val: "list_all (\<lambda>pj. valid_name (index pj) \<and> valid_name (type pj)) potentialJobs"
  shows "fst (initialize pf names True (w, s)) =
           Inr (map (\<lambda>(j, c). \<lparr>index = index j, type = type j, count = parseInt c\<rparr>) (zip potentialJobs cs))
     \<and> set (lists (snd (snd (initialize pf names True (w, s)))) BACKLOG_QUEUE_KEY) = set (map target_id potentialJobs)
     \<and> distinct (lists (snd (snd (initialize pf names True (w, s)))) BACKLOG_QUEUE_KEY)
     \<and> (distinct (map target_id potentialJobs) \<longrightarrow>
          lists (snd (snd (initialize pf names True (w, s)))) BACKLOG_QUEUE_KEY = map target_id potentialJobs)"
proof -
  define s2 where "s2 = snd (clearCompletedJobs (snd (clearBacklogJobs s)))"
  have q2: "lists s2 BACKLOG_QUEUE_KEY = []" and k2: "hkeys BACKLOG_HSET_KEY s2 = []"
    by (simp_all add: s2_def clearCompletedJobs_effect clearBacklogJobs_effect hkeys_def)
  define counted where "counted = map (\<lambda>(j, c). \<lparr>index = index j, type = type j, count = parseInt c\<rparr>) (zip potentialJobs cs)"
  define w1 where "w1 = w\<lparr>requests := requests w @ map (\<lambda>j. (index j, type j)) potentialJobs\<rparr>"
  have a: "addCountToJobs potentialJobs w = (Inr counted, w1)"
    using addCountToJobs_append[OF src cnt, of "[]"] by (simp add: counted_def w1_def)
  have i: "initialize pf names True (w, s)
           = (fst (each_queueJob counted s2), w1, snd (each_queueJob counted s2))"
    using a by (simp add: initialize_def prep s2_def case_prod_beta)
  have ids: "map getID counted = map target_id potentialJobs"
    using addCountToJobs_targets[of potentialJobs w counted] a by simp
  have len: "length cs = length potentialJobs" using cnt by (metis length_map)
  have vc: "list_all valid_job counted"
    using val len unfolding counted_def
    by (auto simp: list_all_iff valid_job_def dest!: set_zip_leftD)
  have d0: "distinct (lists s2 BACKLOG_QUEUE_KEY)" and e0: "set (lists s2 BACKLOG_QUEUE_KEY) = set (hkeys BACKLOG_HSET_KEY s2)"
    using q2 k2 by simp_all
  have img: "getID ` set counted = set (map target_id potentialJobs)"
    using ids by (metis list.set_map)
  from each_queueJob_valid[OF vc d0 e0] q2 ids img i show ?thesis
    by (simp add: counted_def)
qed

lemma initialize_part000_False_cases:
  assumes prep: "prepareNewJobs_part000 pf (vars w) names = Inr potentialJobs"
  shows "hashes (snd (snd (initialize_part000 pf names False (w, s)))) COMPLETED_KEY = hashes s COMPLETED_KEY
     \<and> set (lists (snd (snd (initialize_part000 pf names False (w, s)))) BACKLOG_QUEUE_KEY)
          \<subseteq> {target_id pj | pj. pj \<in> set potentialJobs \<and> valid_name (index pj) \<and> valid_name (type pj) \<and>
               (\<forall>(cid, c) \<in> set (hgetall COMPLETED_KEY s). \<forall>cj. createFromID cid (Some c) = Inr cj \<longrightarrow> index cj \<noteq> index pj)}"
proof -
  define s1 where "s1 = snd (clearBacklogJobs s)"
  have q1: "lists s1 BACKLOG_QUEUE_KEY = []" and c1: "hashes s1 COMPLETED_KEY = hashes s COMPLETED_KEY"
    by (simp_all add: s1_def clearBacklogJobs_effect)
  show ?thesis
  proof (cases "getCompletedJobs s1")
    case (Inl e)
    then have "initialize_part000 pf names False (w, s) = (Inl e, w, s1)"
      by (simp add: each_queueJob_part000_eq initialize_part000_def prep s1_def case_prod_beta)
    with q1 c1 show ?thesis by simp
  next
    case (Inr completed)
    define jobs where "jobs = filter (not_completed (map JSON_parse completed)) potentialJobs"
    have comp: "set completed = {cj. \<exists>(cid, c) \<in> set (hgetall COMPLETED_KEY s). createFromID cid (Some c) = Inr cj}"
      using Inr c1 createAll_set[of "hashes s COMPLETED_KEY" completed]
      by (simp add: getCompletedJobs_def hgetall_def)
    have ok: "\<forall>(cid, c) \<in> set (hgetall COMPLETED_KEY s). \<forall>cj. createFromID cid (Some c) = Inr cj \<longrightarrow> index cj \<noteq> index pj"
      if "pj \<in> set jobs" for pj
    proof -
      from that have "index pj \<notin> index ` set (map JSON_parse completed)"
        by (simp add: jobs_def not_completed_iff)
      then have "\<forall>cj \<in> set completed. index cj \<noteq> index pj"
        by (auto simp: JSON_parse_def image_iff)
      with comp show ?thesis by auto
    qed
    obtain r w1 where a: "addCountToJobs_part000 jobs w = (r, w1)" by (cases "addCountToJobs_part000 jobs w")
    show ?thesis
    proof (cases r)
      case (Inl e)
      with a Inr have "initialize_part000 pf names False (w, s) = (Inl e, w1, s1)"
        by (simp add: each_queueJob_part000_eq initialize_part000_def prep s1_def jobs_def case_prod_beta)
      with q1 c1 show ?thesis by simp
    next
      case r: (Inr counted)
      with a Inr have i: "initialize_part000 pf names False (w, s)
           = (fst (each_queueJob counted s1), w1, snd (each_queueJob counted s1))"
        by (simp add: each_queueJob_part000_eq initialize_part000_def prep s1_def jobs_def case_prod_beta)
      from a r have flds: "map (\<lambda>j. (index j, type j)) counted = map (\<lambda>j. (index j, type j)) jobs"
        using addCountToJobs_part000_fields[of jobs w counted] by simp
      have "set (lists (snd (each_queueJob counted s1)) BACKLOG_QUEUE_KEY) \<subseteq> getID ` {j \<in> set counted. valid_job j}"
        using each_queueJob_queue_subset[of counted s1] q1 by simp
      also have "\<dots> \<subseteq> {target_id pj | pj. pj \<in> set jobs \<and> valid_name (index pj) \<and> valid_name (type pj)}"
        using flds by (rule counted_valid_targets)
      also have "\<dots> \<subseteq> {target_id pj | pj. pj \<in> set potentialJobs \<and> valid_name (index pj) \<and> valid_name (type pj) \<and>
               (\<forall>(cid, c) \<in> set (hgetall COMPLETED_KEY s). \<forall>cj. createFromID cid (Some c) = Inr cj \<longrightarrow> index cj \<noteq> index pj)}"
      proof
        fix i assume "i \<in> {target_id pj | pj. pj \<in> set jobs \<and> valid_name (index pj) \<and> valid_name (type pj)}"
        then obtain pj where pj: "pj \<in> set jobs" "i = target_id pj" "valid_name (index pj)" "valid_name (type pj)"
          by blast
        from pj(1) have "pj \<in> set potentialJobs" by (simp add: jobs_def)
        with ok[OF pj(1)] pj(2,3,4) show "i \<in> {target_id pj | pj. pj \<in> set potentialJobs \<and> valid_name (index pj) \<and> valid_name (type pj) \<and>
               (\<forall>(cid, c) \<in> set (hgetall COMPLETED_KEY s). \<forall>cj. createFromID cid (Some c) = Inr cj \<longrightarrow> index cj \<noteq> index pj)}"
          by blast
      qed
      finally have sub: "set (lists (snd (each_queueJob counted s1)) BACKLOG_QUEUE_KEY)
          \<subseteq> {target_id pj | pj. pj \<in> set potentialJobs \<and> valid_name (index pj) \<and> valid_name (type pj) \<and>
               (\<forall>(cid, c) \<in> set (hgetall COMPLETED_KEY s). \<forall>cj. createFromID cid (Some c) = Inr cj \<longrightarrow> index cj \<noteq> index pj)}" .
      with sub i c1 show ?thesis by simp
    qed
  qed
qed

lemma initialize_part000_True_cleared:
  assumes prep: "prepareNewJobs_part000 pf (vars w) names = Inr potentialJobs"
  shows "hashes (snd (snd (initialize_part000 pf names True (w, s)))) COMPLETED_KEY = []"
proof -
  define s2 where "s2 = snd (clearCompletedJobs (snd (clearBacklogJobs s)))"
  have c2: "hashes s2 COMPLETED_KEY = []" by (simp add: s2_def clearCompletedJobs_effect)
  obtain r w1 where a: "addCountToJobs_part000 potentialJobs w = (r, w1)" by (cases "addCountToJobs_part000 potentialJobs w")
  show ?thesis
  proof (cases r)
    case (Inl e)
    with a have "initialize_part000 pf names True (w, s) = (Inl e, w1, s2)"
      by (simp add: each_queueJob_part000_eq initialize_part000_def prep s2_def case_prod_beta)
    with c2 show ?thesis by simp
  next
    case (Inr counted)
    with a have "initialize_part000 pf names True (w, s)
           = (fst (each_queueJob counted s2), w1, snd (each_queueJob counted s2))"
      by (simp add: each_queueJob_part000_eq initialize_part000_def prep s2_def case_prod_beta)
    with c2 show ?thesis by simp
  qed
qed

lemma initialize_part000_True_all:
  assumes prep: "prepareNewJobs_part000 pf (vars w) names = Inr potentialJobs"
    and src: "source (vars w) = Some client"
    and cnt: "map (\<lambda>j. count_docs client (index j) (type j)) potentialJobs = map Inr cs"
    and val: "list_all (\<lambda>pj. valid_name (index pj) \<and> valid_name (type pj)) potentialJobs"
  shows "fst (initialize_part000 pf names True (w, s)) =
           Inr (map (\<lambda>(j, c). \<lparr>index = index j, type = type j, count = parseInt c\<rparr>) (zip potentialJobs cs))
     \<and> set (lists (snd (snd (initialize_part000 pf names True (w, s)))) BACKLOG_QUEUE_KEY) = set (map target_id potentialJobs)
     \<and> distinct (lists (snd (snd (initialize_part000 pf names True (w, s)))) BACKLOG_QUEUE_KEY)
     \<and> (distinct (map target_id potentialJobs) \<longrightarrow>
          lists (snd (snd (initialize_part000 pf names True (w, s)))) BACKLOG_QUEUE_KEY = map target_id potentialJobs)"
proof -
  define s2 where "s2 = snd (clearCompletedJobs (snd (clearBacklogJobs s)))"
  have q2: "lists s2 BACKLOG_QUEUE_KEY = []" and k2: "hkeys BACKLOG_HSET_KEY s2 = []"
    by (simp_all add: s2_def clearCompletedJobs_effect clearBacklogJobs_effect hkeys_def)
  define counted where "counted = map (\<lambda>(j, c). \<lparr>index = index j, type = type j, count = parseInt c\<rparr>) (zip potentialJobs cs)"
  define w1 where "w1 = w\<lparr>requests := requests w @ map (\<lambda>j. (index j, type j)) potentialJobs,
                vars := (vars w)\<lparr>totalCount := totalCount (vars w) + sum_list (map parseInt cs)\<rparr>\<rparr>"
  have a: "addCountToJobs_part000 potentialJobs w = (Inr counted, w1)"
    using addCountToJobs_part000_append[OF src cnt, of "[]"] by (simp add: counted_def w1_def)
  have i: "initialize_part000 pf names True (w, s)
           = (fst (each_queueJob counted s2), w1, snd (each_queueJob counted s2))"
    using a by (simp add: each_queueJob_part000_eq initialize_part000_def prep s2_def case_prod_beta)
  have ids: "map getID counted = map target_id potentialJobs"
    using addCountToJobs_part000_targets[of potentialJobs w counted] a by simp
  have len: "length cs = length potentialJobs" using cnt by (metis length_map)
  have vc: "list_all valid_job counted"
    using val len unfolding counted_def
    by (auto simp: list_all_iff valid_job_def dest!: set_zip_leftD)
  have d0: "distinct (lists s2 BACKLOG_QUEUE_KEY)" and e0: "set (lists s2 BACKLOG_QUEUE_KEY) = set (hkeys BACKLOG_HSET_KEY s2)"
    using q2 k2 by simp_all
  have img: "getID ` set counted = set (map target_id potentialJobs)"
    using ids by (metis list.set_map)
  from each_queueJob_valid[OF vc d0 e0] q2 ids img i show ?thesis
    by (simp add: counted_def)
qed

lemma index_completed_iff:
  "index_completed s ix \<longleftrightarrow>
     (\<exists>(cid, c) \<in> set (hgetall COMPLETED_KEY s). \<exists>cj. createFromID cid (Some c) = Inr cj \<and> index cj = ix)"
proof -
  have "(case createFromID cid (Some c) of Inl e \<Rightarrow> False | Inr cj \<Rightarrow> index cj = ix)
      \<longleftrightarrow> (\<exists>cj. createFromID cid (Some c) = Inr cj \<and> index cj = ix)" for cid c
    by (cases "createFromID cid (Some c)") simp_all
  then show ?thesis
    by (simp add: index_completed_def list_ex_iff case_prod_unfold)
qed

lemma createFromID_target_id:
  assumes "valid_name (index pj)" "valid_name (type pj)"
  shows "createFromID (target_id pj) None = Inr \<lparr>index = index pj, type = type pj, count = 0\<rparr>"
proof -
  have v: "valid_job \<lparr>index = index pj, type = type pj, count = 0\<rparr>"
    using assms by (simp add: valid_job_def)
  have "getID \<lparr>index = index pj, type = type pj, count = 0\<rparr> = target_id pj"
    by (simp add: getID_def target_id_def)
  with createFromID_getID[OF v, of None] show ?thesis by simp
qed

lemma excluded_list_all:
  assumes "set q \<subseteq> {target_id pj | pj. pj \<in> set potentialJobs \<and> valid_name (index pj) \<and> valid_name (type pj) \<and>
               (\<forall>(cid, c) \<in> set (hgetall COMPLETED_KEY s). \<forall>cj. createFromID cid (Some c) = Inr cj \<longrightarrow> index cj \<noteq> index pj)}"
  shows "list_all (\<lambda>i. list_ex (\<lambda>pj. i = target_id pj \<and> \<not> index_completed s (index pj)) potentialJobs
                    \<and> (case createFromID i None of Inl e \<Rightarrow> False | Inr j \<Rightarrow> \<not> index_completed s (index j))) q"
  unfolding list_all_iff list_ex_iff
proof
  fix i assume "i \<in> set q"
  with assms obtain pj where pj: "pj \<in> set potentialJobs" "i = target_id pj"
    and v: "valid_name (index pj)" "valid_name (type pj)"
    and n: "\<forall>(cid, c) \<in> set (hgetall COMPLETED_KEY s). \<forall>cj. createFromID cid (Some c) = Inr cj \<longrightarrow> index cj \<noteq> index pj"
    by blast
  from n have nc: "\<not> index_completed s (index pj)" by (auto simp: index_completed_iff)
  from createFromID_target_id[OF v] pj(2) nc
  have "case createFromID i None of Inl e \<Rightarrow> False | Inr j \<Rightarrow> \<not> index_completed s (index j)"
    by simp
  with pj nc show "(\<exists>pj \<in> set potentialJobs. i = target_id pj \<and> \<not> index_completed s (index pj))
      \<and> (case createFromID i None of Inl e \<Rightarrow> False | Inr j \<Rightarrow> \<not> index_completed s (index j))"
    by blast
qed

text \<open>
  C4: let \<^verbatim>\<open>prepareNewJobs\<close> resolve to the prepared jobs. After
  \<^verbatim>\<open>initialize(names, false)\<close>, whether it succeeded or failed on the way, every id in
  the backlog queue is the id of a prepared job, and the job it names has an index name
  that is the index of no entry of the Completed Ledger (the entries' sub-collections
  are not consulted); the ledger is as it was. After \<^verbatim>\<open>initialize(names, true)\<close> the
  ledger is empty; when all count requests succeed and the job names are well-formed,
  the call resolves to the prepared jobs with their counts and the queue holds the ids
  of all of them, each once, in their order (whatever the ledger held before). Both
  copies behave so.
\<close>

theorem initialize_reconciles_completed:
  assumes prep: "prepareNewJobs pf (vars w) names = Inr potentialJobs"
    and prep0: "prepareNewJobs_part000 pf (vars w0) names = Inr potentialJobs0"
  shows "list_all (\<lambda>i. list_ex (\<lambda>pj. i = target_id pj \<and> \<not> index_completed s (index pj)) potentialJobs
                    \<and> (case createFromID i None of Inl e \<Rightarrow> False | Inr j \<Rightarrow> \<not> index_completed s (index j)))
           (lists (snd (snd (initialize pf names False (w, s)))) BACKLOG_QUEUE_KEY)
     \<and> hgetall COMPLETED_KEY (snd (snd (initialize pf names False (w, s)))) = hgetall COMPLETED_KEY s
     \<and> hgetall COMPLETED_KEY (snd (snd (initialize pf names True (w, s)))) = []
     \<and> (source (vars w) = Some client
          \<and> map (\<lambda>j. count_docs client (index j) (type j)) potentialJobs = map Inr cs
          \<and> list_all (\<lambda>pj. valid_name (index pj) \<and> valid_name (type pj)) potentialJobs \<longrightarrow>
          fst (initialize pf names True (w, s)) =
            Inr (map (\<lambda>(j, c). \<lparr>index = index j, type = type j, count = parseInt c\<rparr>) (zip potentialJobs cs))
        \<and> set (lists (snd (snd (initialize pf names True (w, s)))) BACKLOG_QUEUE_KEY) = set (map target_id potentialJobs)
        \<and> distinct (lists (snd (snd (initialize pf names True (w, s)))) BACKLOG_QUEUE_KEY)
        \<and> (distinct (map target_id potentialJobs) \<longrightarrow>
             lists (snd (snd (initialize pf names True (w, s)))) BACKLOG_QUEUE_KEY = map target_id potentialJobs))
     \<and> list_all (\<lambda>i. list_ex (\<lambda>pj. i = target_id pj \<and> \<not> index_completed s (index pj)) potentialJobs0
                    \<and> (case createFromID i None of Inl e \<Rightarrow> False | Inr j \<Rightarrow> \<not> index_completed s (index j)))
           (lists (snd (snd (initialize_part000 pf names False (w0, s)))) BACKLOG_QUEUE_KEY)
     \<and> hgetall COMPLETED_KEY (snd (snd (initialize_part000 pf names False (w0, s)))) = hgetall COMPLETED_KEY s
     \<and> hgetall COMPLETED_KEY (snd (snd (initialize_part000 pf names True (w0, s)))) = []
     \<and> (source (vars w0) = Some client
          \<and> map (\<lambda>j. count_docs client (index j) (type j)) potentialJobs0 = map Inr cs0
          \<and> list_all (\<lambda>pj. valid_name (index pj) \<and> valid_name (type pj)) potentialJobs0 \<longrightarrow>
          fst (initialize_part000 pf names True (w0, s)) =
            Inr (map (\<lambda>(j, c). \<lparr>index = index j, type = type j, count = parseInt c\<rparr>) (zip potentialJobs0 cs0))
        \<and> set (lists (snd (snd (initialize_part000 pf names True (w0, s)))) BACKLOG_QUEUE_KEY) = set (map target_id potentialJobs0)
        \<and> distinct (lists (snd (snd (initialize_part000 pf names True (w0, s)))) BACKLOG_QUEUE_KEY)
        \<and> (distinct (map target_id potentialJobs0) \<longrightarrow>
             lists (snd (snd (initialize_part000 pf names True (w0, s)))) BACKLOG_QUEUE_KEY = map target_id potentialJobs0))"
proof -
  from initialize_False_cases[OF prep, of s]
  have a1: "list_all (\<lambda>i. list_ex (\<lambda>pj. i = target_id pj \<and> \<not> index_completed s (index pj)) potentialJobs
                    \<and> (case createFromID i None of Inl e \<Rightarrow> False | Inr j \<Rightarrow> \<not> index_completed s (index j)))
           (lists (snd (snd (initialize pf names False (w, s)))) BACKLOG_QUEUE_KEY)"
    and a2: "hgetall COMPLETED_KEY (snd (snd (initialize pf names False (w, s)))) = hgetall COMPLETED_KEY s"
    by (simp_all add: excluded_list_all hgetall_def)
  from initialize_True_cleared[OF prep, of s]
  have a3: "hgetall COMPLETED_KEY (snd (snd (initialize pf names True (w, s)))) = []"
    by (simp add: hgetall_def)
  from initialize_part000_False_cases[OF prep0, of s]
  have b1: "list_all (\<lambda>i. list_ex (\<lambda>pj. i = target_id pj \<and> \<not> index_completed s (index pj)) potentialJobs0
                    \<and> (case createFromID i None of Inl e \<Rightarrow> False | Inr j \<Rightarrow> \<not> index_completed s (index j)))
           (lists (snd (snd (initialize_part000 pf names False (w0, s)))) BACKLOG_QUEUE_KEY)"
    and b2: "hgetall COMPLETED_KEY (snd (snd (initialize_part000 pf names False (w0, s)))) = hgetall COMPLETED_KEY s"
    by (simp_all add: excluded_list_all hgetall_def)
  from initialize_part000_True_cleared[OF prep0, of s]
  have b3: "hgetall COMPLETED_KEY (snd (snd (initialize_part000 pf names True (w0, s)))) = []"
    by (simp add: hgetall_def)
  note a4 = initialize_True_all[OF prep, of client cs s]
  note b4 = initialize_part000_True_all[OF prep0, of client cs0 s]
  from a1 a2 a3 a4 b1 b2 b3 b4 show ?thesis by blast
qed

theorem initialize_reconciles_completed_witness:
  "prepareNewJobs example_platform (vars \<lparr>vars = example_module, requests = []\<rparr>) ''*''
     = Inr [\<lparr>index = ''A'', type = ''t1''\<rparr>, \<lparr>index = ''A'', type = ''t2''\<rparr>, \<lparr>index = ''B'', type = ''t1''\<rparr>]
   \<and> prepareNewJobs_part000 example_platform (vars \<lparr>vars = example_module_part000, requests = []\<rparr>) ''*''
     = Inr [\<lparr>index = ''A'', type = ''t1''\<rparr>, \<lparr>index = ''A'', type = ''t2''\<rparr>, \<lparr>index = ''B'', type = ''t1''\<rparr>]
   \<and> hgetall COMPLETED_KEY (snd (completeJob (Plain \<lparr>index = ''A'', type = ''t1'', count = 3\<rparr>) empty_store))
     = [(''A:t1'', 3)]
   \<and> lists (snd (snd (initialize example_platform ''*'' False
          (\<lparr>vars = example_module, requests = []\<rparr>,
           snd (completeJob (Plain \<lparr>index = ''A'', type = ''t1'', count = 3\<rparr>) empty_store))))) BACKLOG_QUEUE_KEY
     = [''B:t1'']
   \<and> lists (snd (snd (initialize example_platform ''*'' True
          (\<lparr>vars = example_module, requests = []\<rparr>,
           snd (completeJob (Plain \<lparr>index = ''A'', type = ''t1'', count = 3\<rparr>) empty_store))))) BACKLOG_QUEUE_KEY
     = [''A:t1'', ''A:t2'', ''B:t1'']
   \<and> hgetall COMPLETED_KEY (snd (snd (initialize example_platform ''*'' True
          (\<lparr>vars = example_module, requests = []\<rparr>,
           snd (completeJob (Plain \<lparr>index = ''A'', type = ''t1'', count = 3\<rparr>) empty_store))))) = []
   \<and> lists (snd (snd (initialize_part000 example_platform ''*'' False
          (\<lparr>vars = example_module_part000, requests = []\<rparr>,
           snd (completeJob (Plain \<lparr>index = ''A'', type = ''t1'', count = 3\<rparr>) empty_store))))) BACKLOG_QUEUE_KEY
     = [''B:t1'']"
proof -
  let ?wm = "\<lparr>vars = example_module, requests = []\<rparr>"
  let ?wp = "\<lparr>vars = example_module_part000, requests = []\<rparr>"
  let ?s = "snd (completeJob (Plain \<lparr>index = ''A'', type = ''t1'', count = 3\<rparr>) empty_store)"
  let ?pjs = "[\<lparr>index = ''A'', type = ''t1''\<rparr>, \<lparr>index = ''A'', type = ''t2''\<rparr>, \<lparr>index = ''B'', type = ''t1''\<rparr>]"
  have h1: "prepareNewJobs example_platform (vars ?wm) ''*'' = Inr ?pjs"
    by (simp add: example_defs)
  have h2: "prepareNewJobs_part000 example_platform (vars ?wp) ''*'' = Inr ?pjs"
    by (simp add: example_defs)
  have h3: "source (vars ?wm) = Some example_source" by (simp add: example_module_def)
  have h4: "map (\<lambda>j. count_docs example_source (index j) (type j)) ?pjs = map Inr [3, 7, 5]"
    by (simp add: example_source_def)
  have h5: "list_all (\<lambda>pj. valid_name (index pj) \<and> valid_name (type pj)) ?pjs"
    by (simp add: valid_name_def SEPARATOR_def)
  have h6: "distinct (map target_id ?pjs)" by (simp add: target_id_def)
  have e0: "hgetall COMPLETED_KEY ?s = [(''A:t1'', 3)]" by (simp add: eval_defs)
  have e1: "lists (snd (snd (initialize example_platform ''*'' False (?wm, ?s)))) BACKLOG_QUEUE_KEY = [''B:t1'']"
    by (simp add: example_defs eval_defs)
  have e2: "lists (snd (snd (initialize_part000 example_platform ''*'' False (?wp, ?s)))) BACKLOG_QUEUE_KEY = [''B:t1'']"
    by (simp add: example_defs eval_defs)
  have t: "map target_id ?pjs = [''A:t1'', ''A:t2'', ''B:t1'']" by (simp add: target_id_def SEPARATOR_def)
  from initialize_reconciles_completed[OF h1 h2, of ?s example_source "[3, 7, 5]"] h3 h4 h5 h6
  have "hgetall COMPLETED_KEY (snd (snd (initialize example_platform ''*'' True (?wm, ?s)))) = []"
    and "lists (snd (snd (initialize example_platform ''*'' True (?wm, ?s)))) BACKLOG_QUEUE_KEY = map target_id ?pjs"
    by blast+
  with h1 h2 e0 e1 e2 t show ?thesis by simp
qed

section \<open>Instances share the module's variables\<close>

lemmas manager_defs = Manager_def on_store_def Manager_fetchJob_def Manager_queueJob_def
  Manager_completeJob_def Manager_getBacklogCount_def Manager_setIndexFilter_def
  Manager_setTypeFilter_def Manager_setIndexComparator_def Manager_filterIndicesAndTypes_def
  Manager_prepareNewJobs_def

text \<open>
  C9: every method gives the same result on whichever of two instances it is called,
  since it reads the module's variables. The constructor of a second instance replaces
  the source and the store's client for the first one too (whose \<^verbatim>\<open>self.source\<close>
  still names its own source): a job queued through the first instance lands in the
  second one's store. A filter or comparator set through one instance is the one that
  filters and orders for the other, whatever was set before.
\<close>

theorem instances_share_module_state:
  "Manager_fetchJob a sys = Manager_fetchJob b sys
   \<and> Manager_queueJob a job sys = Manager_queueJob b job sys
   \<and> Manager_completeJob a job sys = Manager_completeJob b job sys
   \<and> Manager_getBacklogCount a sys = Manager_getBacklogCount b sys
   \<and> Manager_filterIndicesAndTypes a allIndices sys = Manager_filterIndicesAndTypes b allIndices sys
   \<and> Manager_prepareNewJobs a pf names sys = Manager_prepareNewJobs b pf names sys
   \<and> self_source (fst (Manager source1 client1 sys)) = source1
   \<and> module (snd (Manager source2 client2 (snd (Manager source1 client1 sys))))
       = (module sys)\<lparr>source := Some source2, redis := Some client2\<rparr>
   \<and> (client1 \<noteq> client2 \<longrightarrow>
        fst (Manager_queueJob (fst (Manager source1 client1 sys)) job
               (snd (Manager source2 client2 (snd (Manager source1 client1 sys)))))
          = fst (queueJob job (servers sys client2))
      \<and> servers (snd (Manager_queueJob (fst (Manager source1 client1 sys)) job
               (snd (Manager source2 client2 (snd (Manager source1 client1 sys)))))) client2
          = snd (queueJob job (servers sys client2))
      \<and> servers (snd (Manager_queueJob (fst (Manager source1 client1 sys)) job
               (snd (Manager source2 client2 (snd (Manager source1 client1 sys)))))) client1
          = servers sys client1)
   \<and> (getFilterFunction pf filter1 = Inr f \<longrightarrow>
        Manager_filterIndicesAndTypes a allIndices (snd (Manager_setIndexFilter b pf filter1 sys))
          = filterIndicesAndTypes ((module sys)\<lparr>indexFilter := Some (JSFunction f)\<rparr>) allIndices
      \<and> Manager_filterIndicesAndTypes a allIndices (snd (Manager_setTypeFilter b pf filter1 sys))
          = filterIndicesAndTypes ((module sys)\<lparr>typeFilter := Some (JSFunction f)\<rparr>) allIndices)
   \<and> (setIndexComparator pf comparator1 (module sys) = Inr m \<longrightarrow>
        indexComparator m \<noteq> None
      \<and> Manager_prepareNewJobs a pf names (snd (Manager_setIndexComparator b pf comparator1 sys))
          = prepareNewJobs pf m names)"
proof -
  have q: "client1 \<noteq> client2 \<longrightarrow>
        fst (Manager_queueJob (fst (Manager source1 client1 sys)) job
               (snd (Manager source2 client2 (snd (Manager source1 client1 sys)))))
          = fst (queueJob job (servers sys client2))
      \<and> servers (snd (Manager_queueJob (fst (Manager source1 client1 sys)) job
               (snd (Manager source2 client2 (snd (Manager source1 client1 sys)))))) client2
          = snd (queueJob job (servers sys client2))
      \<and> servers (snd (Manager_queueJob (fst (Manager source1 client1 sys)) job
               (snd (Manager source2 client2 (snd (Manager source1 client1 sys)))))) client1
          = servers sys client1"
    by (cases "coerce_job job") (simp_all add: manager_defs queueJob_Inl case_prod_beta)
  have f: "getFilterFunction pf filter1 = Inr f \<longrightarrow>
        Manager_filterIndicesAndTypes a allIndices (snd (Manager_setIndexFilter b pf filter1 sys))
          = filterIndicesAndTypes ((module sys)\<lparr>indexFilter := Some (JSFunction f)\<rparr>) allIndices
      \<and> Manager_filterIndicesAndTypes a allIndices (snd (Manager_setTypeFilter b pf filter1 sys))
          = filterIndicesAndTypes ((module sys)\<lparr>typeFilter := Some (JSFunction f)\<rparr>) allIndices"
    by (simp add: manager_defs setIndexFilter_def setTypeFilter_def)
  have c: "setIndexComparator pf comparator1 (module sys) = Inr m \<longrightarrow>
        indexComparator m \<noteq> None
      \<and> Manager_prepareNewJobs a pf names (snd (Manager_setIndexComparator b pf comparator1 sys))
          = prepareNewJobs pf m names"
    by (auto simp: manager_defs setIndexComparator_def split: jsval.splits option.splits if_splits sum.splits)
  have r: "Manager_fetchJob a sys = Manager_fetchJob b sys
   \<and> Manager_queueJob a job sys = Manager_queueJob b job sys
   \<and> Manager_completeJob a job sys = Manager_completeJob b job sys
   \<and> Manager_getBacklogCount a sys = Manager_getBacklogCount b sys
   \<and> Manager_filterIndicesAndTypes a allIndices sys = Manager_filterIndicesAndTypes b allIndices sys
   \<and> Manager_prepareNewJobs a pf names sys = Manager_prepareNewJobs b pf names sys
   \<and> self_source (fst (Manager source1 client1 sys)) = source1
   \<and> module (snd (Manager source2 client2 (snd (Manager source1 client1 sys))))
       = (module sys)\<lparr>source := Some source2, redis := Some client2\<rparr>"
    by (simp add: manager_defs)
  from r q f c show ?thesis by blast
qed

theorem instances_share_module_state_witness:
  "(0::nat) \<noteq> 1
   \<and> fst (Manager_queueJob (fst (Manager example_source 0 \<lparr>module = example_module, servers = (\<lambda>c. empty_store)\<rparr>))
         (Plain \<lparr>index = ''A'', type = ''t1'', count = 3\<rparr>)
         (snd (Manager (example_source\<lparr>indices_get := (\<lambda>names. Inr [])\<rparr>) 1
            (snd (Manager example_source 0 \<lparr>module = example_module, servers = (\<lambda>c. empty_store)\<rparr>)))))
       = Inr (Some 1)
   \<and> lists (servers (snd (Manager_queueJob (fst (Manager example_source 0 \<lparr>module = example_module, servers = (\<lambda>c. empty_store)\<rparr>))
         (Plain \<lparr>index = ''A'', type = ''t1'', count = 3\<rparr>)
         (snd (Manager (example_source\<lparr>indices_get := (\<lambda>names. Inr [])\<rparr>) 1
            (snd (Manager example_source 0 \<lparr>module = example_module, servers = (\<lambda>c. empty_store)\<rparr>)))))) 1) BACKLOG_QUEUE_KEY
       = [''A:t1'']
   \<and> lists (servers (snd (Manager_queueJob (fst (Manager example_source 0 \<lparr>module = example_module, servers = (\<lambda>c. empty_store)\<rparr>))
         (Plain \<lparr>index = ''A'', type = ''t1'', count = 3\<rparr>)
         (snd (Manager (example_source\<lparr>indices_get := (\<lambda>names. Inr [])\<rparr>) 1
            (snd (Manager example_source 0 \<lparr>module = example_module, servers = (\<lambda>c. empty_store)\<rparr>)))))) 0) BACKLOG_QUEUE_KEY
       = []
   \<and> getFilterFunction example_platform (JSFunction (Function 1 (\<lambda>target i collection. name target = ''B'')))
       = Inr (Function 1 (\<lambda>target i collection. name target = ''B''))
   \<and> Manager_filterIndicesAndTypes \<lparr>self_source = example_source\<rparr>
        [Target ''A'' [(''t1'', Target [] [] [])] [], Target ''B'' [(''t1'', Target [] [] [])] []]
        (snd (Manager_setIndexFilter \<lparr>self_source = example_source\<lparr>indices_get := (\<lambda>names. Inr [])\<rparr>\<rparr> example_platform
                (JSFunction (Function 1 (\<lambda>target i collection. name target = ''B'')))
                \<lparr>module = example_module, servers = (\<lambda>c. empty_store)\<rparr>))
       = [\<lparr>index = ''B'', types = [''t1'']\<rparr>]"
proof -
  let ?sys = "\<lparr>module = example_module, servers = (\<lambda>c. empty_store)\<rparr>"
  let ?src2 = "example_source\<lparr>indices_get := (\<lambda>names. Inr [])\<rparr>"
  let ?job = "Plain \<lparr>index = ''A'', type = ''t1'', count = 3\<rparr>"
  let ?flt = "JSFunction (Function 1 (\<lambda>target i collection. name target = ''B''))"
  let ?all = "[Target ''A'' [(''t1'', Target [] [] [])] [], Target ''B'' [(''t1'', Target [] [] [])] []]"
  have h1: "(0::nat) \<noteq> 1" by simp
  have h2: "getFilterFunction example_platform ?flt = Inr (Function 1 (\<lambda>target i collection. name target = ''B''))"
    by (simp add: getFilterFunction_def)
  have g1: "fst (Manager_queueJob (fst (Manager example_source 0 ?sys)) ?job
         (snd (Manager ?src2 1 (snd (Manager example_source 0 ?sys))))) = Inr (Some 1)"
    by (simp add: manager_defs eval_defs)
  have g2: "lists (servers (snd (Manager_queueJob (fst (Manager example_source 0 ?sys)) ?job
         (snd (Manager ?src2 1 (snd (Manager example_source 0 ?sys)))))) 1) BACKLOG_QUEUE_KEY = [''A:t1'']"
    by (simp add: manager_defs eval_defs)
  have g3: "lists (servers (snd (Manager_queueJob (fst (Manager example_source 0 ?sys)) ?job
         (snd (Manager ?src2 1 (snd (Manager example_source 0 ?sys)))))) 0) BACKLOG_QUEUE_KEY = []"
    by (simp add: manager_defs eval_defs)
  have g4: "Manager_filterIndicesAndTypes \<lparr>self_source = example_source\<rparr> ?all
        (snd (Manager_setIndexFilter \<lparr>self_source = ?src2\<rparr> example_platform ?flt ?sys))
       = [\<lparr>index = ''B'', types = [''t1'']\<rparr>]"
    by (simp add: manager_defs setIndexFilter_def getFilterFunction_def example_defs)
  from instances_share_module_state[where a = "\<lparr>self_source = example_source\<rparr>" and b = "\<lparr>self_source = ?src2\<rparr>"
      and sys = ?sys and job = ?job and allIndices = ?all and pf = example_platform and names = "''*''"
      and ?source1.0 = example_source and ?client1.0 = 0 and ?source2.0 = ?src2 and ?client2.0 = 1
      and ?filter1.0 = ?flt and f = "Function 1 (\<lambda>target i collection. name target = ''B'')"
      and ?comparator1.0 = JSOther and m = example_module]
    h1 h2 g1 g2 g3 g4
  show ?thesis by blast
qed

section \<open>The scenario of the specification, end to end\<close>

text \<open>
  With a comparator that orders the index names downwards, \<^verbatim>\<open>initialize("*", true)\<close>
  on the example system queues \<open>B:t1\<close>, \<open>A:t1\<close>, \<open>A:t2\<close> in this order, with the
  counts 5, 3 and 7 asked for in this order, and \<^verbatim>\<open>getBacklogCount()\<close> is then 15.
\<close>

theorem end_to_end_scenario:
  "setIndexComparator example_platform
       (JSFunction (Function 2 (\<lambda>a b. if a = ''B'' \<and> b = ''A'' then - 1 else if a = ''A'' \<and> b = ''B'' then 1 else 0)))
       example_module
     = Inr (example_module\<lparr>indexComparator :=
         Some (JSFunction (Function 2 (\<lambda>a b. if a = ''B'' \<and> b = ''A'' then - 1 else if a = ''A'' \<and> b = ''B'' then 1 else 0)))\<rparr>)
   \<and> fst (initialize example_platform ''*'' True
        (\<lparr>vars = example_module\<lparr>indexComparator :=
            Some (JSFunction (Function 2 (\<lambda>a b. if a = ''B'' \<and> b = ''A'' then - 1 else if a = ''A'' \<and> b = ''B'' then 1 else 0)))\<rparr>,
           requests = []\<rparr>, empty_store))
     = Inr [\<lparr>index = ''B'', type = ''t1'', count = 5\<rparr>, \<lparr>index = ''A'', type = ''t1'', count = 3\<rparr>,
            \<lparr>index = ''A'', type = ''t2'', count = 7\<rparr>]
   \<and> lists (snd (snd (initialize example_platform ''*'' True
        (\<lparr>vars = example_module\<lparr>indexComparator :=
            Some (JSFunction (Function 2 (\<lambda>a b. if a = ''B'' \<and> b = ''A'' then - 1 else if a = ''A'' \<and> b = ''B'' then 1 else 0)))\<rparr>,
           requests = []\<rparr>, empty_store)))) BACKLOG_QUEUE_KEY
     = [''B:t1'', ''A:t1'', ''A:t2'']
   \<and> getBacklogCount (snd (snd (initialize example_platform ''*'' True
        (\<lparr>vars = example_module\<lparr>indexComparator :=
            Some (JSFunction (Function 2 (\<lambda>a b. if a = ''B'' \<and> b = ''A'' then - 1 else if a = ''A'' \<and> b = ''B'' then 1 else 0)))\<rparr>,
           requests = []\<rparr>, empty_store))))
     = 15
   \<and> requests (fst (snd (initialize example_platform ''*'' True
        (\<lparr>vars = example_module\<lparr>indexComparator :=
            Some (JSFunction (Function 2 (\<lambda>a b. if a = ''B'' \<and> b = ''A'' then - 1 else if a = ''A'' \<and> b = ''B'' then 1 else 0)))\<rparr>,
           requests = []\<rparr>, empty_store))))
     = [(''B'', ''t1''), (''A'', ''t1''), (''A'', ''t2'')]"
  by (simp add: setIndexComparator_def example_defs eval_defs)

end
